theory Spec2Isabelle
  imports Complex_Main "HOL-Library.Sublist"
begin

section \<open>The random source\<close>

text \<open>
  The program draws from Python's global generator through \<open>random.random\<close>,
  \<open>random.uniform\<close>, \<open>random.gauss\<close> and \<open>random.choice\<close>. The generator is modelled
  as the sequences of outcomes it is going to deliver: the uniform samples of successive
  \<open>random()\<close> calls, the standard normal variates behind successive \<open>gauss\<close> calls and the
  integers behind successive \<open>choice\<close> calls. Every draw consumes the head of its sequence.
  Floating-point numbers are idealised as reals.
\<close>

record rng =
  uniform_draws :: "nat \<Rightarrow> real"
  normal_draws :: "nat \<Rightarrow> real"
  index_draws :: "nat \<Rightarrow> nat"

definition random_random :: "rng \<Rightarrow> real \<times> rng" where
  "random_random g =
     (uniform_draws g 0, g\<lparr>uniform_draws := (\<lambda>n. uniform_draws g (Suc n))\<rparr>)"

definition random_uniform :: "real \<Rightarrow> real \<Rightarrow> rng \<Rightarrow> real \<times> rng" where
  "random_uniform a b g = (case random_random g of (u, g') \<Rightarrow> (a + (b - a) * u, g'))"

definition random_gauss :: "real \<Rightarrow> real \<Rightarrow> rng \<Rightarrow> real \<times> rng" where
  "random_gauss mu sigma g =
     (mu + normal_draws g 0 * sigma, g\<lparr>normal_draws := (\<lambda>n. normal_draws g (Suc n))\<rparr>)"

datatype error = IndexError

text \<open>\<open>random.choice\<close> on a sequence of length \<open>n\<close>: the index of the chosen element;
  an empty sequence raises IndexError.\<close>

definition random_choice :: "nat \<Rightarrow> rng \<Rightarrow> error + (nat \<times> rng)" where
  "random_choice n g =
     (if n = 0 then Inl IndexError
      else Inr (index_draws g 0 mod n, g\<lparr>index_draws := (\<lambda>k. index_draws g (Suc k))\<rparr>))"

section \<open>Simulation parameters\<close>

record config =
  WIDTH :: real
  HEIGHT :: real
  N :: int
  infection_radius :: real
  p_transmission_uncontrolled :: real
  p_transmission_controlled :: real
  control_time :: real
  dt :: real
  max_speed :: real
  incubation_mean :: real
  incubation_std :: real
  infectious_mean :: real
  infectious_std :: real

text \<open>The module-level constants of the program.\<close>

definition default_config :: config where
  "default_config =
     \<lparr>WIDTH = 800, HEIGHT = 600, N = 1000, infection_radius = 15,
      p_transmission_uncontrolled = 3 / 10, p_transmission_controlled = 1 / 10,
      control_time = 200, dt = 1 / 10, max_speed = 4,
      incubation_mean = 60, incubation_std = 20,
      infectious_mean = 80, infectious_std = 15\<rparr>"

section \<open>Person\<close>

record person =
  pos :: "real \<times> real"
  vel :: "real \<times> real"
  state :: string
  timer :: real
  size_px :: int
  vaccinated :: bool
  dose :: int

definition Person_init :: "config \<Rightarrow> rng \<Rightarrow> person \<times> rng" where
  "Person_init cfg g0 =
     (case random_uniform 0 (WIDTH cfg) g0 of (x, g1) \<Rightarrow>
      case random_uniform 0 (HEIGHT cfg) g1 of (y, g2) \<Rightarrow>
      case random_uniform 0 (2 * pi) g2 of (angle, g3) \<Rightarrow>
      case random_uniform 0 (max_speed cfg) g3 of (speed, g4) \<Rightarrow>
        (\<lparr>pos = (x, y), vel = (speed * cos angle, speed * sin angle),
          state = ''S'', timer = 0, size_px = 6, vaccinated = False, dose = 0\<rparr>, g4))"

text \<open>One axis of the wrap-around in \<open>Person.update\<close>: \<open>if c < 0: c += d  elif c > d: c -= d\<close>.\<close>

definition wrap :: "real \<Rightarrow> real \<Rightarrow> real" where
  "wrap d c = (if c < 0 then c + d else if c > d then c - d else c)"

definition move :: "config \<Rightarrow> person \<Rightarrow> real \<Rightarrow> person" where
  "move cfg p dt' =
     p\<lparr>pos := (wrap (WIDTH cfg) (fst (pos p) + fst (vel p) * dt'),
               wrap (HEIGHT cfg) (snd (pos p) + snd (vel p) * dt'))\<rparr>"

definition update :: "config \<Rightarrow> person \<Rightarrow> real \<Rightarrow> rng \<Rightarrow> person \<times> rng" where
  "update cfg p dt' g =
     (let p1 = move cfg p dt' in
      if state p1 = ''E'' then
        (let p2 = p1\<lparr>timer := timer p1 + dt'\<rparr> in
         case random_gauss (incubation_mean cfg) (incubation_std cfg) g of (d, g') \<Rightarrow>
           if timer p2 \<ge> max 0 d then (p2\<lparr>state := ''I'', timer := 0\<rparr>, g') else (p2, g'))
      else if state p1 = ''I'' then
        (let p2 = p1\<lparr>timer := timer p1 + dt'\<rparr> in
         case random_gauss (infectious_mean cfg) (infectious_std cfg) g of (d, g') \<Rightarrow>
           if timer p2 \<ge> max 0 d then (p2\<lparr>state := ''R''\<rparr>, g') else (p2, g'))
      else (p1, g))"

section \<open>Population\<close>

fun create_population :: "config \<Rightarrow> nat \<Rightarrow> rng \<Rightarrow> person list \<times> rng" where
  "create_population cfg 0 g = ([], g)"
| "create_population cfg (Suc n) g =
     (case Person_init cfg g of (p, g') \<Rightarrow>
      case create_population cfg n g' of (ps, g'') \<Rightarrow> (p # ps, g''))"

definition vaccinate :: "person \<Rightarrow> rng \<Rightarrow> person \<times> rng" where
  "vaccinate p g =
     (case random_random g of (u, g1) \<Rightarrow>
        if u < 3 / 10 then
          (case random_random g1 of (u2, g2) \<Rightarrow>
             (p\<lparr>vaccinated := True, dose := (if u2 < 8 / 10 then 2 else 1)\<rparr>, g2))
        else (p, g1))"

fun assign_vaccination :: "person list \<Rightarrow> rng \<Rightarrow> person list \<times> rng" where
  "assign_vaccination [] g = ([], g)"
| "assign_vaccination (p # ps) g =
     (case vaccinate p g of (p', g') \<Rightarrow>
      case assign_vaccination ps g' of (ps', g'') \<Rightarrow> (p' # ps', g''))"

record sim =
  population :: "person list"
  current_time :: real
  random_state :: rng

definition init :: "config \<Rightarrow> rng \<Rightarrow> error + sim" where
  "init cfg g0 =
     (case create_population cfg (nat (N cfg)) g0 of (pop0, g1) \<Rightarrow>
      case random_choice (length pop0) g1 of
        Inl e \<Rightarrow> Inl e
      | Inr (k, g2) \<Rightarrow>
          (let pop1 = pop0[k := (pop0 ! k)\<lparr>state := ''E'', timer := 0\<rparr>] in
           case assign_vaccination pop1 g2 of (pop2, g3) \<Rightarrow>
             Inr \<lparr>population = pop2, current_time = 0, random_state = g3\<rparr>))"

section \<open>The main loop\<close>

type_synonym world = "person list \<times> rng"

fun update_all :: "config \<Rightarrow> real \<Rightarrow> person list \<Rightarrow> rng \<Rightarrow> world" where
  "update_all cfg dt' [] g = ([], g)"
| "update_all cfg dt' (p # ps) g =
     (case update cfg p dt' g of (p', g') \<Rightarrow>
      case update_all cfg dt' ps g' of (ps', g'') \<Rightarrow> (p' # ps', g''))"

text \<open>\<open>population[i]\<close> raises IndexError outside the list.\<close>

definition getitem :: "'a list \<Rightarrow> nat \<Rightarrow> error + 'a" where
  "getitem xs i = (if i < length xs then Inr (xs ! i) else Inl IndexError)"

text \<open>A \<open>for k in range(...)\<close> loop whose body may raise.\<close>

fun for_range :: "(nat \<Rightarrow> 's \<Rightarrow> error + 's) \<Rightarrow> nat list \<Rightarrow> 's \<Rightarrow> error + 's" where
  "for_range body [] s = Inr s"
| "for_range body (k # ks) s =
     (case body k s of Inl e \<Rightarrow> Inl e | Inr s' \<Rightarrow> for_range body ks s')"

definition hypot :: "real \<Rightarrow> real \<Rightarrow> real" where
  "hypot x y = sqrt (x\<^sup>2 + y\<^sup>2)"

definition distance :: "person \<Rightarrow> person \<Rightarrow> real" where
  "distance a b =
     hypot \<bar>fst (pos a) - fst (pos b)\<bar> \<bar>snd (pos a) - snd (pos b)\<bar>"

definition effective_prob :: "real \<Rightarrow> person \<Rightarrow> real" where
  "effective_prob p_transmission pj =
     (if vaccinated pj then
        (if dose pj = 1 then 5 / 1000
         else if dose pj = 2 then 2 / 1000
         else p_transmission)
      else p_transmission)"

text \<open>The body of the inner loop, for one \<open>i\<close> and one \<open>j\<close>.\<close>

definition check_pair :: "config \<Rightarrow> real \<Rightarrow> nat \<Rightarrow> nat \<Rightarrow> world \<Rightarrow> error + world" where
  "check_pair cfg p_transmission i j w =
     (case w of (pop, g) \<Rightarrow>
      case getitem pop j of
        Inl e \<Rightarrow> Inl e
      | Inr pj \<Rightarrow>
          if state pj \<noteq> ''S'' then Inr w
          else
            (case getitem pop i of
               Inl e \<Rightarrow> Inl e
             | Inr pi' \<Rightarrow>
                 if distance pi' pj < infection_radius cfg then
                   (case random_random g of (u, g') \<Rightarrow>
                      if u < effective_prob p_transmission pj
                      then Inr (pop[j := pj\<lparr>state := ''E'', timer := 0\<rparr>], g')
                      else Inr (pop, g'))
                 else Inr w))"

text \<open>The body of the outer loop, for one \<open>i\<close>.\<close>

definition infect_from :: "config \<Rightarrow> real \<Rightarrow> nat \<Rightarrow> world \<Rightarrow> error + world" where
  "infect_from cfg p_transmission i w =
     (case getitem (fst w) i of
        Inl e \<Rightarrow> Inl e
      | Inr pi' \<Rightarrow>
          if state pi' \<noteq> ''I'' then Inr w
          else for_range (check_pair cfg p_transmission i) [0..<nat (N cfg)] w)"

definition check_transmissions :: "config \<Rightarrow> real \<Rightarrow> world \<Rightarrow> error + world" where
  "check_transmissions cfg p_transmission w =
     for_range (infect_from cfg p_transmission) [0..<nat (N cfg)] w"

definition count_state :: "string \<Rightarrow> person list \<Rightarrow> nat" where
  "count_state c pop = sum_list (map (\<lambda>p. 1) (filter (\<lambda>p. state p = c) pop))"

record counts =
  count_S :: nat
  count_E :: nat
  count_I :: nat
  count_R :: nat

definition p_transmission_at :: "config \<Rightarrow> real \<Rightarrow> real" where
  "p_transmission_at cfg t =
     (if t < control_time cfg then p_transmission_uncontrolled cfg
      else p_transmission_controlled cfg)"

text \<open>One iteration of the main loop, without the event handling and the drawing.\<close>

definition tick :: "config \<Rightarrow> sim \<Rightarrow> error + (sim \<times> counts)" where
  "tick cfg s =
     (let t = current_time s + dt cfg;
          p_transmission = p_transmission_at cfg t
      in case update_all cfg (dt cfg) (population s) (random_state s) of (pop1, g1) \<Rightarrow>
         case check_transmissions cfg p_transmission (pop1, g1) of
           Inl e \<Rightarrow> Inl e
         | Inr (pop2, g2) \<Rightarrow>
             Inr (\<lparr>population = pop2, current_time = t, random_state = g2\<rparr>,
                  \<lparr>count_S = count_state ''S'' pop2, count_E = count_state ''E'' pop2,
                   count_I = count_state ''I'' pop2, count_R = count_state ''R'' pop2\<rparr>))"

text \<open>The loop run for \<open>n\<close> iterations: the successive states it passes through.\<close>

fun run :: "config \<Rightarrow> nat \<Rightarrow> sim \<Rightarrow> error + sim list" where
  "run cfg 0 s = Inr []"
| "run cfg (Suc n) s =
     (case tick cfg s of
        Inl e \<Rightarrow> Inl e
      | Inr (s', c) \<Rightarrow>
          (case run cfg n s' of Inl e \<Rightarrow> Inl e | Inr ss \<Rightarrow> Inr (s' # ss)))"

section \<open>Relations between successive populations\<close>

text \<open>What a transmission trial may do to a person: nothing, or turn a susceptible
  person into an exposed one with the timer at zero.\<close>

definition exposes :: "person \<Rightarrow> person \<Rightarrow> bool" where
  "exposes a b \<longleftrightarrow> b = a \<or> (state a = ''S'' \<and> b = a\<lparr>state := ''E'', timer := 0\<rparr>)"

text \<open>What the update loop does to a person: one call of \<open>update\<close>, on some state of
  the random source.\<close>

definition updates :: "config \<Rightarrow> real \<Rightarrow> person \<Rightarrow> person \<Rightarrow> bool" where
  "updates cfg dt' a b \<longleftrightarrow> (\<exists>g. b = fst (update cfg a dt' g))"

text \<open>A person as \<open>Person.__init__\<close> leaves it.\<close>

definition fresh :: "person \<Rightarrow> bool" where
  "fresh p \<longleftrightarrow> state p = ''S'' \<and> timer p = 0 \<and> \<not> vaccinated p \<and> dose p = 0"

text \<open>The vaccination fields agree: a vaccinated person has one or two doses, an
  unvaccinated one has none.\<close>

definition dose_ok :: "person \<Rightarrow> bool" where
  "dose_ok p \<longleftrightarrow> (vaccinated p \<longrightarrow> dose p = 1 \<or> dose p = 2) \<and> (\<not> vaccinated p \<longrightarrow> dose p = 0)"

text \<open>What the vaccination loop does to a person.\<close>

definition vaccinates :: "person \<Rightarrow> person \<Rightarrow> bool" where
  "vaccinates a b \<longleftrightarrow> (\<exists>g. b = fst (vaccinate a g))"

text \<open>The steps of the compartment model, the four labels, and the labels one person
  passes through in a list of states.\<close>

definition progresses :: "string \<Rightarrow> string \<Rightarrow> bool" where
  "progresses a b \<longleftrightarrow>
     b = a \<or> (a = ''S'' \<and> b = ''E'') \<or> (a = ''E'' \<and> b = ''I'') \<or> (a = ''I'' \<and> b = ''R'')"

definition compartment :: "string \<Rightarrow> bool" where
  "compartment c \<longleftrightarrow> c = ''S'' \<or> c = ''E'' \<or> c = ''I'' \<or> c = ''R''"

definition visited :: "nat \<Rightarrow> sim list \<Rightarrow> string list" where
  "visited k ss = map (\<lambda>s. state (population s ! k)) ss"

text \<open>The labels that can still follow a given one.\<close>

definition later_stages :: "string \<Rightarrow> string list" where
  "later_stages c =
     (if c = ''S'' then [''S'', ''E'', ''I'', ''R'']
      else if c = ''E'' then [''E'', ''I'', ''R'']
      else if c = ''I'' then [''I'', ''R'']
      else [''R''])"

text \<open>The condition under which the transmission trial takes its fallback branch: the
  target is vaccinated and its dose is neither 1 nor 2.\<close>

definition fallback_branch :: "person \<Rightarrow> bool" where
  "fallback_branch pj \<longleftrightarrow> vaccinated pj \<and> dose pj \<noteq> 1 \<and> dose pj \<noteq> 2"

section \<open>The transmission pass with its trials recorded\<close>

text \<open>
  A trial is one evaluation of \<open>random.random() < effective_prob\<close>. To speak about the
  trials of a pass, the three loops are written a second time with a trace: the code is the
  same, and each trial appends one entry, with the indices of the pair, the target as the
  trial finds it, the probability, the sample and the outcome. The trace is never read.
\<close>

record trial =
  infector :: nat
  target :: nat
  subject :: person
  prob :: real
  sample :: real
  infected :: bool

definition check_pair_traced ::
  "config \<Rightarrow> real \<Rightarrow> nat \<Rightarrow> nat \<Rightarrow> world \<times> trial list \<Rightarrow> error + world \<times> trial list" where
  "check_pair_traced cfg p_transmission i j wl =
     (case wl of ((pop, g), tr) \<Rightarrow>
      case getitem pop j of
        Inl e \<Rightarrow> Inl e
      | Inr pj \<Rightarrow>
          if state pj \<noteq> ''S'' then Inr wl
          else
            (case getitem pop i of
               Inl e \<Rightarrow> Inl e
             | Inr pi' \<Rightarrow>
                 if distance pi' pj < infection_radius cfg then
                   (case random_random g of (u, g') \<Rightarrow>
                      if u < effective_prob p_transmission pj
                      then Inr ((pop[j := pj\<lparr>state := ''E'', timer := 0\<rparr>], g'),
                                tr @ [\<lparr>infector = i, target = j, subject = pj,
                                         prob = effective_prob p_transmission pj,
                                         sample = u, infected = True\<rparr>])
                      else Inr ((pop, g'),
                                tr @ [\<lparr>infector = i, target = j, subject = pj,
                                         prob = effective_prob p_transmission pj,
                                         sample = u, infected = False\<rparr>]))
                 else Inr wl))"

definition infect_from_traced ::
  "config \<Rightarrow> real \<Rightarrow> nat \<Rightarrow> world \<times> trial list \<Rightarrow> error + world \<times> trial list" where
  "infect_from_traced cfg p_transmission i wl =
     (case getitem (fst (fst wl)) i of
        Inl e \<Rightarrow> Inl e
      | Inr pi' \<Rightarrow>
          if state pi' \<noteq> ''I'' then Inr wl
          else for_range (check_pair_traced cfg p_transmission i) [0..<nat (N cfg)] wl)"

definition check_transmissions_traced ::
  "config \<Rightarrow> real \<Rightarrow> world \<times> trial list \<Rightarrow> error + world \<times> trial list" where
  "check_transmissions_traced cfg p_transmission wl =
     for_range (infect_from_traced cfg p_transmission) [0..<nat (N cfg)] wl"

text \<open>The trials of one iteration of the main loop.\<close>

definition tick_trials :: "config \<Rightarrow> sim \<Rightarrow> error + trial list" where
  "tick_trials cfg s =
     (let t = current_time s + dt cfg;
          p_transmission = p_transmission_at cfg t
      in case update_all cfg (dt cfg) (population s) (random_state s) of (pop1, g1) \<Rightarrow>
         case check_transmissions_traced cfg p_transmission ((pop1, g1), []) of
           Inl e \<Rightarrow> Inl e
         | Inr (w, tr) \<Rightarrow> Inr tr)"

text \<open>Forgetting the trace.\<close>

definition erase :: "error + world \<times> trial list \<Rightarrow> error + world" where
  "erase r = (case r of Inl e \<Rightarrow> Inl e | Inr (w, tr) \<Rightarrow> Inr w)"

text \<open>Notions about a trace and the population the pass started from: the pairs the
  scan has to consider, the pairs it has tried, the targets an earlier infector has already
  infected, and the pairs the loops have passed when the outer loop is at \<open>i\<close> and the
  inner one at \<open>j\<close>.\<close>

definition candidate :: "config \<Rightarrow> person list \<Rightarrow> nat \<Rightarrow> nat \<Rightarrow> bool" where
  "candidate cfg pop i j \<longleftrightarrow>
     i < nat (N cfg) \<and> j < nat (N cfg) \<and> state (pop ! i) = ''I'' \<and> state (pop ! j) = ''S'' \<and>
     distance (pop ! i) (pop ! j) < infection_radius cfg"

definition trialed :: "trial list \<Rightarrow> nat \<Rightarrow> nat \<Rightarrow> bool" where
  "trialed tr i j \<longleftrightarrow> (\<exists>t\<in>set tr. infector t = i \<and> target t = j)"

definition infected_before :: "trial list \<Rightarrow> nat \<Rightarrow> nat \<Rightarrow> bool" where
  "infected_before tr i j \<longleftrightarrow> (\<exists>t\<in>set tr. target t = j \<and> infected t \<and> infector t < i)"

definition no_retrial :: "trial list \<Rightarrow> bool" where
  "no_retrial tr \<longleftrightarrow>
     (\<forall>a b. a < b \<and> b < length tr \<and> infected (tr ! a) \<longrightarrow> target (tr ! b) \<noteq> target (tr ! a))"

definition passed :: "nat \<Rightarrow> nat \<Rightarrow> nat \<Rightarrow> nat \<Rightarrow> nat \<Rightarrow> bool" where
  "passed n i j i' j' \<longleftrightarrow> (i' < i \<and> j' < n) \<or> (i' = i \<and> j' < j)"

definition pass_inv ::
  "config \<Rightarrow> real \<Rightarrow> person list \<Rightarrow> nat \<Rightarrow> nat \<Rightarrow> person list \<Rightarrow> trial list \<Rightarrow> bool" where
  "pass_inv cfg p pop0 i j pop tr \<longleftrightarrow>
     list_all2 exposes pop0 pop \<and>
     (\<forall>k<length pop0. state (pop ! k) \<noteq> state (pop0 ! k) \<longleftrightarrow> (\<exists>t\<in>set tr. target t = k \<and> infected t)) \<and>
     (\<forall>t\<in>set tr. passed (nat (N cfg)) i j (infector t) (target t) \<and> target t < length pop0 \<and>
                  subject t = pop0 ! target t) \<and>
     (\<forall>i' j'. passed (nat (N cfg)) i j i' j' \<longrightarrow>
        (trialed tr i' j' \<longleftrightarrow> candidate cfg pop0 i' j' \<and> \<not> infected_before tr i' j')) \<and>
     no_retrial tr \<and>
     (\<forall>t\<in>set tr. prob t = effective_prob p (subject t) \<and> infected t = (sample t < prob t))"

text \<open>The random source \<open>g\<close> is the source \<open>g0\<close> after the trials of the trace: each
  trial has taken the next uniform sample, and nothing else has been drawn.\<close>

definition samples_inv :: "rng \<Rightarrow> rng \<Rightarrow> trial list \<Rightarrow> bool" where
  "samples_inv g0 g tr \<longleftrightarrow>
     (\<forall>k<length tr. sample (tr ! k) = uniform_draws g0 k) \<and>
     uniform_draws g = (\<lambda>n. uniform_draws g0 (n + length tr)) \<and>
     normal_draws g = normal_draws g0 \<and> index_draws g = index_draws g0"

text \<open>The uniform samples of a random source lie in the unit interval; a person is inside
  the closed world and no faster than the maximum speed on either axis.\<close>

definition unit_samples :: "rng \<Rightarrow> bool" where
  "unit_samples g \<longleftrightarrow> (\<forall>n. 0 \<le> uniform_draws g n \<and> uniform_draws g n \<le> 1)"

definition in_world :: "config \<Rightarrow> person \<Rightarrow> bool" where
  "in_world cfg q \<longleftrightarrow>
     0 \<le> fst (pos q) \<and> fst (pos q) \<le> WIDTH cfg \<and> 0 \<le> snd (pos q) \<and> snd (pos q) \<le> HEIGHT cfg"

definition slow :: "config \<Rightarrow> person \<Rightarrow> bool" where
  "slow cfg q \<longleftrightarrow> \<bar>fst (vel q)\<bar> \<le> max_speed cfg \<and> \<bar>snd (vel q)\<bar> \<le> max_speed cfg"

section \<open>Concrete inputs\<close>

text \<open>A random source that delivers the same uniform sample \<open>u\<close> and the same normal
  variate \<open>z\<close> for ever, a configuration with three persons, and a person given by its
  fields.\<close>

definition rng_const :: "real \<Rightarrow> real \<Rightarrow> rng" where
  "rng_const u z =
     \<lparr>uniform_draws = (\<lambda>n. u), normal_draws = (\<lambda>n. z), index_draws = (\<lambda>n. 0)\<rparr>"

definition small_config :: config where
  "small_config = default_config\<lparr>N := 3\<rparr>"

definition person_at ::
  "real \<times> real \<Rightarrow> real \<times> real \<Rightarrow> string \<Rightarrow> real \<Rightarrow> bool \<Rightarrow> int \<Rightarrow> person" where
  "person_at xy v c t vac d =
     \<lparr>pos = xy, vel = v, state = c, timer = t, size_px = 6, vaccinated = vac, dose = d\<rparr>"

text \<open>States of the three-person configuration: each person is given by its state and
  its timer; all stand still at the origin, vaccinated with two doses.\<close>

definition small_state :: "string \<times> real \<Rightarrow> string \<times> real \<Rightarrow> string \<times> real \<Rightarrow> real \<Rightarrow> sim" where
  "small_state a b c t =
     \<lparr>population = [person_at (0, 0) (0, 0) (fst a) (snd a) True 2,
                    person_at (0, 0) (0, 0) (fst b) (snd b) True 2,
                    person_at (0, 0) (0, 0) (fst c) (snd c) True 2],
      current_time = t, random_state = rng_const 0 (- 10)\<rparr>"

definition small_counts :: "nat \<Rightarrow> nat \<Rightarrow> nat \<Rightarrow> nat \<Rightarrow> counts" where
  "small_counts s e i r = \<lparr>count_S = s, count_E = e, count_I = i, count_R = r\<rparr>"

text \<open>The three-person configuration with a zero radius, a zero time step and a
  transmission probability of 2.\<close>

definition invalid_config :: config where
  "invalid_config =
     small_config\<lparr>infection_radius := 0, dt := 0, p_transmission_uncontrolled := 2\<rparr>"

text \<open>Two infectious persons and one susceptible person at the same place; one infectious
  person with a susceptible person across the edge of the world and another one at exactly
  the infection radius; and the entry of a trial on a person of \<open>small_state\<close>.\<close>

definition two_infectors :: "person list" where
  "two_infectors =
     [person_at (0, 0) (0, 0) ''I'' 0 False 0, person_at (0, 0) (0, 0) ''I'' 0 False 0,
      person_at (0, 0) (0, 0) ''S'' 0 False 0]"

definition edge_population :: "person list" where
  "edge_population =
     [person_at (1, 0) (0, 0) ''I'' 0 False 0, person_at (799, 0) (0, 0) ''S'' 0 False 0,
      person_at (16, 0) (0, 0) ''S'' 0 False 0]"

definition small_trial :: "nat \<Rightarrow> nat \<Rightarrow> trial" where
  "small_trial i j =
     \<lparr>infector = i, target = j, subject = person_at (0, 0) (0, 0) ''S'' 0 True 2,
      prob = 2 / 1000, sample = 0, infected = True\<rparr>"

text \<open>A random source whose first normal variate is \<open>z0\<close> and whose later ones are all
  \<open>z1\<close>.\<close>

definition rng_two :: "real \<Rightarrow> real \<Rightarrow> rng" where
  "rng_two z0 z1 =
     \<lparr>uniform_draws = (\<lambda>n. 0), normal_draws = (\<lambda>n. if n = 0 then z0 else z1),
      index_draws = (\<lambda>n. 0)\<rparr>"

section \<open>Properties of the model\<close>

subsection \<open>Person.update\<close>

lemma wrap_closed:
  "0 \<le> c \<Longrightarrow> c \<le> d \<Longrightarrow> \<bar>v\<bar> \<le> d \<Longrightarrow> 0 \<le> wrap d (c + v) \<and> wrap d (c + v) \<le> d"
  by (auto simp: wrap_def)

lemma pos_update: "pos (fst (update cfg p dt' g)) = pos (move cfg p dt')"
  by (simp add: update_def Let_def split: prod.splits)

lemma vel_update: "vel (fst (update cfg p dt' g)) = vel p"
  by (simp add: update_def move_def Let_def split: prod.splits)

lemma vaccination_update:
  "vaccinated (fst (update cfg p dt' g)) = vaccinated p \<and>
   dose (fst (update cfg p dt' g)) = dose p"
  by (simp add: update_def move_def Let_def split: prod.splits)

lemma state_move: "state (move cfg p dt') = state p" "timer (move cfg p dt') = timer p"
  by (simp_all add: move_def)

lemma update_E:
  "state p = ''E'' \<Longrightarrow>
   update cfg p dt' g =
     (let d = fst (random_gauss (incubation_mean cfg) (incubation_std cfg) g);
          g' = snd (random_gauss (incubation_mean cfg) (incubation_std cfg) g)
      in if timer p + dt' \<ge> max 0 d
         then ((move cfg p dt')\<lparr>timer := 0, state := ''I''\<rparr>, g')
         else ((move cfg p dt')\<lparr>timer := timer p + dt'\<rparr>, g'))"
  by (simp add: update_def Let_def state_move split: prod.splits)

lemma update_I:
  "state p = ''I'' \<Longrightarrow>
   update cfg p dt' g =
     (let d = fst (random_gauss (infectious_mean cfg) (infectious_std cfg) g);
          g' = snd (random_gauss (infectious_mean cfg) (infectious_std cfg) g)
      in if timer p + dt' \<ge> max 0 d
         then ((move cfg p dt')\<lparr>timer := timer p + dt', state := ''R''\<rparr>, g')
         else ((move cfg p dt')\<lparr>timer := timer p + dt'\<rparr>, g'))"
  by (simp add: update_def Let_def state_move split: prod.splits)

lemma update_other:
  "state p \<noteq> ''E'' \<Longrightarrow> state p \<noteq> ''I'' \<Longrightarrow> update cfg p dt' g = (move cfg p dt', g)"
  by (simp add: update_def Let_def state_move)

subsection \<open>The loops\<close>

lemma exposes_refl: "exposes a a"
  by (simp add: exposes_def)

lemma exposes_trans: "exposes a b \<Longrightarrow> exposes b c \<Longrightarrow> exposes a c"
  by (auto simp: exposes_def)

lemma list_all2_exposes_refl: "list_all2 exposes xs xs"
  by (simp add: list_all2_same exposes_refl)

lemma list_all2_exposes_trans:
  "list_all2 exposes xs ys \<Longrightarrow> list_all2 exposes ys zs \<Longrightarrow> list_all2 exposes xs zs"
  by (rule list_all2_trans[of exposes exposes exposes]) (auto intro: exposes_trans)

lemma update_all_updates: "list_all2 (updates cfg dt') ps (fst (update_all cfg dt' ps g))"
proof (induction ps arbitrary: g)
  case Nil
  show ?case by simp
next
  case (Cons p ps)
  obtain p' g' where u: "update cfg p dt' g = (p', g')" by (cases "update cfg p dt' g")
  have "updates cfg dt' p p'" unfolding updates_def using u by (metis fst_conv)
  with Cons[of g'] u show ?case by (cases "update_all cfg dt' ps g'") simp
qed

lemma for_range_append:
  "for_range body (ks @ ks') s =
     (case for_range body ks s of Inl e \<Rightarrow> Inl e | Inr s' \<Rightarrow> for_range body ks' s')"
  by (induction ks arbitrary: s) (auto split: sum.splits)

lemma for_range_invariant:
  assumes "for_range body ks s = Inr s'" and "P s"
    and "\<And>k t t'. k \<in> set ks \<Longrightarrow> P t \<Longrightarrow> body k t = Inr t' \<Longrightarrow> P t'"
  shows "P s'"
  using assms
proof (induction ks arbitrary: s)
  case Nil
  then show ?case by simp
next
  case (Cons k ks)
  from Cons.prems(1) obtain t where b: "body k s = Inr t" and r: "for_range body ks t = Inr s'"
    by (auto split: sum.splits)
  have "P t" using Cons.prems(3)[of k s t] Cons.prems(2) b by simp
  then show ?case using Cons.IH[OF r] Cons.prems(3) by (meson list.set_intros(2))
qed

lemma for_range_total:
  assumes "P s"
    and "\<And>k t. k \<in> set ks \<Longrightarrow> P t \<Longrightarrow> \<exists>t'. body k t = Inr t' \<and> P t'"
  shows "\<exists>s'. for_range body ks s = Inr s' \<and> P s'"
  using assms
proof (induction ks arbitrary: s)
  case Nil
  then show ?case by simp
next
  case (Cons k ks)
  from Cons.prems obtain t where b: "body k s = Inr t" and p: "P t" by fastforce
  from Cons.IH[OF p] Cons.prems(2) obtain s' where "for_range body ks t = Inr s'" "P s'"
    by auto
  with b show ?case by simp
qed

lemma check_pair_exposes:
  assumes "check_pair cfg p i j (pop, g) = Inr (pop', g')"
  shows "list_all2 exposes pop pop'"
proof -
  have "pop' = pop \<or> (j < length pop \<and> state (pop ! j) = ''S'' \<and>
          pop' = pop[j := (pop ! j)\<lparr>state := ''E'', timer := 0\<rparr>])"
    using assms by (auto simp: check_pair_def getitem_def split: if_splits sum.splits prod.splits)
  then show ?thesis
  proof
    assume "pop' = pop" then show ?thesis by (simp add: list_all2_exposes_refl)
  next
    assume h: "j < length pop \<and> state (pop ! j) = ''S'' \<and>
          pop' = pop[j := (pop ! j)\<lparr>state := ''E'', timer := 0\<rparr>]"
    then show ?thesis
      by (auto simp: list_all2_conv_all_nth nth_list_update exposes_def)
  qed
qed

lemma check_pair_total:
  "i < length pop \<Longrightarrow> j < length pop \<Longrightarrow> \<exists>pop' g'. check_pair cfg p i j (pop, g) = Inr (pop', g') \<and> length pop' = length pop"
  by (auto simp: check_pair_def getitem_def split: prod.splits)

lemma infect_from_exposes:
  assumes "infect_from cfg p i (pop, g) = Inr (pop', g')"
  shows "list_all2 exposes pop pop'"
proof (cases "i < length pop \<and> state (pop ! i) = ''I''")
  case False
  with assms have "pop' = pop" by (auto simp: infect_from_def getitem_def split: if_splits)
  then show ?thesis by (simp add: list_all2_exposes_refl)
next
  case True
  with assms have r: "for_range (check_pair cfg p i) [0..<nat (N cfg)] (pop, g) = Inr (pop', g')"
    by (simp add: infect_from_def getitem_def)
  have "list_all2 exposes pop (fst (pop', g'))"
  proof (rule for_range_invariant[OF r, where P = "\<lambda>w. list_all2 exposes pop (fst w)"])
    show "list_all2 exposes pop (fst (pop, g))" by (simp add: list_all2_exposes_refl)
  next
    fix k and t t' :: world
    assume "list_all2 exposes pop (fst t)" "check_pair cfg p i k t = Inr t'"
    then show "list_all2 exposes pop (fst t')"
      using check_pair_exposes[of cfg p i k "fst t" "snd t" "fst t'" "snd t'"]
      by (auto intro: list_all2_exposes_trans)
  qed
  then show ?thesis by simp
qed

lemma infect_from_total:
  assumes "nat (N cfg) \<le> length pop" "i < nat (N cfg)"
  shows "\<exists>pop' g'. infect_from cfg p i (pop, g) = Inr (pop', g') \<and> length pop' = length pop"
proof (cases "state (pop ! i) = ''I''")
  case False
  with assms show ?thesis by (simp add: infect_from_def getitem_def)
next
  case True
  have "\<exists>w'. for_range (check_pair cfg p i) [0..<nat (N cfg)] (pop, g) = Inr w' \<and> length (fst w') = length pop"
  proof (rule for_range_total[where P = "\<lambda>w. length (fst w) = length pop"])
    show "length (fst (pop, g)) = length pop" by simp
  next
    fix k and t :: world
    assume "k \<in> set [0..<nat (N cfg)]" "length (fst t) = length pop"
    then show "\<exists>t'. check_pair cfg p i k t = Inr t' \<and> length (fst t') = length pop"
      using check_pair_total[of i "fst t" k cfg p "snd t"] assms by auto
  qed
  with True assms show ?thesis by (auto simp: infect_from_def getitem_def)
qed

lemma check_transmissions_exposes:
  assumes "check_transmissions cfg p (pop, g) = Inr (pop', g')"
  shows "list_all2 exposes pop pop'"
proof -
  have "list_all2 exposes pop (fst (pop', g'))"
  proof (rule for_range_invariant[OF assms[unfolded check_transmissions_def],
        where P = "\<lambda>w. list_all2 exposes pop (fst w)"])
    show "list_all2 exposes pop (fst (pop, g))" by (simp add: list_all2_exposes_refl)
  next
    fix k and t t' :: world
    assume "list_all2 exposes pop (fst t)" "infect_from cfg p k t = Inr t'"
    then show "list_all2 exposes pop (fst t')"
      using infect_from_exposes[of cfg p k "fst t" "snd t" "fst t'" "snd t'"]
      by (auto intro: list_all2_exposes_trans)
  qed
  then show ?thesis by simp
qed

lemma check_transmissions_total:
  assumes "nat (N cfg) \<le> length pop"
  shows "\<exists>pop' g'. check_transmissions cfg p (pop, g) = Inr (pop', g')"
proof -
  have "\<exists>w'. for_range (infect_from cfg p) [0..<nat (N cfg)] (pop, g) = Inr w' \<and> length (fst w') = length pop"
  proof (rule for_range_total[where P = "\<lambda>w. length (fst w) = length pop"])
    show "length (fst (pop, g)) = length pop" by simp
  next
    fix k and t :: world
    assume "k \<in> set [0..<nat (N cfg)]" "length (fst t) = length pop"
    then show "\<exists>t'. infect_from cfg p k t = Inr t' \<and> length (fst t') = length pop"
      using infect_from_total[of cfg "fst t" k p "snd t"] assms by auto
  qed
  then show ?thesis by (auto simp: check_transmissions_def)
qed

subsection \<open>One iteration and whole runs\<close>

lemma updates_cases:
  assumes "updates cfg d a b"
  shows "(state a = ''E'' \<and> ((state b = ''I'' \<and> timer b = 0) \<or> (state b = ''E'' \<and> timer b = timer a + d)))
       \<or> (state a = ''I'' \<and> (state b = ''R'' \<or> state b = ''I'') \<and> timer b = timer a + d)
       \<or> (state a \<noteq> ''E'' \<and> state a \<noteq> ''I'' \<and> state b = state a \<and> timer b = timer a)"
proof -
  from assms obtain g where b: "b = fst (update cfg a d g)" by (auto simp: updates_def)
  consider "state a = ''E''" | "state a = ''I''" | "state a \<noteq> ''E''" "state a \<noteq> ''I''" by blast
  then show ?thesis
  proof cases
    case 1
    then show ?thesis using b by (simp add: update_E Let_def state_move)
  next
    case 2
    then show ?thesis using b by (simp add: update_I Let_def state_move)
  next
    case 3
    then show ?thesis using b by (simp add: update_other state_move)
  qed
qed

lemma updates_fields:
  "updates cfg d a b \<Longrightarrow> vaccinated b = vaccinated a \<and> dose b = dose a \<and> vel b = vel a \<and> pos b = pos (move cfg a d)"
  by (auto simp: updates_def vaccination_update vel_update pos_update)

lemma exposes_fields:
  "exposes b c \<Longrightarrow> vaccinated c = vaccinated b \<and> dose c = dose b \<and> vel c = vel b \<and> pos c = pos b"
  by (auto simp: exposes_def)

lemma exposes_cases:
  "exposes b c \<Longrightarrow> (state c = state b \<and> timer c = timer b) \<or> (state b = ''S'' \<and> state c = ''E'' \<and> timer c = 0)"
  by (auto simp: exposes_def)

lemma tick_step:
  assumes "tick cfg s = Inr (s', c)"
  shows "\<exists>pop1. list_all2 (updates cfg (dt cfg)) (population s) pop1 \<and>
                list_all2 exposes pop1 (population s')"
proof -
  obtain pop1 g1 where u: "update_all cfg (dt cfg) (population s) (random_state s) = (pop1, g1)"
    by (cases "update_all cfg (dt cfg) (population s) (random_state s)")
  from assms u obtain pop2 g2 where
    t: "check_transmissions cfg (p_transmission_at cfg (current_time s + dt cfg)) (pop1, g1) = Inr (pop2, g2)"
    and s': "population s' = pop2"
    by (auto simp: tick_def Let_def split: sum.splits)
  have "list_all2 (updates cfg (dt cfg)) (population s) pop1"
    using update_all_updates[of cfg "dt cfg" "population s" "random_state s"] u by simp
  moreover have "list_all2 exposes pop1 (population s')"
    using check_transmissions_exposes[OF t] s' by simp
  ultimately show ?thesis by blast
qed

lemma tick_nth:
  assumes "tick cfg s = Inr (s', c)" and "k < length (population s)"
  shows "\<exists>b. updates cfg (dt cfg) (population s ! k) b \<and> exposes b (population s' ! k)"
proof -
  from tick_step[OF assms(1)] obtain pop1 where
    a: "list_all2 (updates cfg (dt cfg)) (population s) pop1" and
    b: "list_all2 exposes pop1 (population s')" by blast
  from a assms(2) have "updates cfg (dt cfg) (population s ! k) (pop1 ! k)" "k < length pop1"
    by (auto simp: list_all2_conv_all_nth)
  moreover from this b have "exposes (pop1 ! k) (population s' ! k)"
    by (auto simp: list_all2_conv_all_nth)
  ultimately show ?thesis by blast
qed

lemma tick_length:
  assumes "tick cfg s = Inr (s', c)"
  shows "length (population s') = length (population s)"
  using tick_step[OF assms] by (auto simp: list_all2_conv_all_nth)

lemma tick_total:
  assumes "nat (N cfg) \<le> length (population s)"
  shows "\<exists>s' c. tick cfg s = Inr (s', c)"
proof -
  obtain pop1 g1 where u: "update_all cfg (dt cfg) (population s) (random_state s) = (pop1, g1)"
    by (cases "update_all cfg (dt cfg) (population s) (random_state s)")
  have "length pop1 = length (population s)"
    using update_all_updates[of cfg "dt cfg" "population s" "random_state s"] u
    by (auto dest: list_all2_lengthD)
  with assms have "nat (N cfg) \<le> length pop1" by simp
  from check_transmissions_total[OF this] obtain pop2 g2 where
    "check_transmissions cfg (p_transmission_at cfg (current_time s + dt cfg)) (pop1, g1) = Inr (pop2, g2)"
    by blast
  with u show ?thesis by (simp add: tick_def Let_def)
qed

lemma tick_counts:
  assumes "tick cfg s = Inr (s', c)"
  shows "c = \<lparr>count_S = count_state ''S'' (population s'), count_E = count_state ''E'' (population s'),
              count_I = count_state ''I'' (population s'), count_R = count_state ''R'' (population s')\<rparr>"
    and "current_time s' = current_time s + dt cfg"
  using assms by (auto simp: tick_def Let_def split: sum.splits prod.splits)

lemma run_length: "run cfg n s = Inr ss \<Longrightarrow> length ss = n"
  by (induction n arbitrary: s ss) (auto split: sum.splits prod.splits)

lemma run_invariant:
  assumes "run cfg n s = Inr ss" and "P s"
    and "\<And>t t' c. P t \<Longrightarrow> tick cfg t = Inr (t', c) \<Longrightarrow> P t'"
  shows "\<forall>t\<in>set ss. P t"
  using assms(1,2)
proof (induction n arbitrary: s ss)
  case 0
  then show ?case by simp
next
  case (Suc n)
  from Suc.prems(1) obtain s' c ss' where t: "tick cfg s = Inr (s', c)"
    and r: "run cfg n s' = Inr ss'" and ss: "ss = s' # ss'"
    by (auto split: sum.splits prod.splits)
  have "P s'" using assms(3)[OF Suc.prems(2) t] .
  with Suc.IH[OF r] ss show ?case by simp
qed

lemma run_steps:
  assumes "run cfg n s = Inr ss" and "m < n"
  shows "\<exists>c. tick cfg ((s # ss) ! m) = Inr (ss ! m, c)"
  using assms
proof (induction n arbitrary: s ss m)
  case 0
  then show ?case by simp
next
  case (Suc n)
  from Suc.prems(1) obtain s' c ss' where t: "tick cfg s = Inr (s', c)"
    and r: "run cfg n s' = Inr ss'" and ss: "ss = s' # ss'"
    by (auto split: sum.splits prod.splits)
  show ?case
  proof (cases m)
    case 0
    with t ss show ?thesis by simp
  next
    case (Suc m')
    with Suc.prems(2) have "m' < n" by simp
    from Suc.IH[OF r this] Suc ss show ?thesis by simp
  qed
qed

lemma run_total:
  assumes "nat (N cfg) \<le> length (population s)"
  shows "\<exists>ss. run cfg n s = Inr ss"
  using assms
proof (induction n arbitrary: s)
  case 0
  show ?case by simp
next
  case (Suc n)
  from tick_total[OF Suc.prems] obtain s' c where t: "tick cfg s = Inr (s', c)" by blast
  with Suc.prems have "nat (N cfg) \<le> length (population s')" by (simp add: tick_length)
  from Suc.IH[OF this] t show ?case by auto
qed

subsection \<open>Initialisation\<close>

lemma Person_init_fresh: "fresh (fst (Person_init cfg g))"
  by (simp add: Person_init_def fresh_def split: prod.splits)

lemma create_population_length: "length (fst (create_population cfg n g)) = n"
proof (induction n arbitrary: g)
  case 0
  show ?case by simp
next
  case (Suc n)
  obtain p g' where p: "Person_init cfg g = (p, g')" by (cases "Person_init cfg g")
  obtain ps g'' where ps: "create_population cfg n g' = (ps, g'')"
    by (cases "create_population cfg n g'")
  show ?case using Suc[of g'] p ps by simp
qed

lemma create_population_fresh: "\<forall>p\<in>set (fst (create_population cfg n g)). fresh p"
proof (induction n arbitrary: g)
  case 0
  show ?case by simp
next
  case (Suc n)
  obtain p g' where p: "Person_init cfg g = (p, g')" by (cases "Person_init cfg g")
  obtain ps g'' where ps: "create_population cfg n g' = (ps, g'')"
    by (cases "create_population cfg n g'")
  have "fresh p" using Person_init_fresh[of cfg g] p by simp
  moreover have "\<forall>q\<in>set ps. fresh q" using Suc[of g'] ps by simp
  ultimately show ?case using p ps by simp
qed

lemma assign_vaccination_vaccinates:
  "list_all2 vaccinates ps (fst (assign_vaccination ps g))"
proof (induction ps arbitrary: g)
  case Nil
  show ?case by simp
next
  case (Cons p ps)
  obtain p' g' where u: "vaccinate p g = (p', g')" by (cases "vaccinate p g")
  have "vaccinates p p'" unfolding vaccinates_def using u by (metis fst_conv)
  with Cons[of g'] u show ?case by (cases "assign_vaccination ps g'") simp
qed

lemma fst_vaccinate:
  "fst (vaccinate a g) =
     (if uniform_draws g 0 < 3 / 10
      then a\<lparr>vaccinated := True, dose := (if uniform_draws g 1 < 8 / 10 then 2 else 1)\<rparr>
      else a)"
  by (simp add: vaccinate_def random_random_def)

lemma vaccinates_fields:
  "vaccinates a b \<Longrightarrow> state b = state a \<and> timer b = timer a \<and> pos b = pos a \<and> vel b = vel a"
  by (auto simp: vaccinates_def fst_vaccinate)

lemma vaccinates_dose_ok:
  "vaccinates a b \<Longrightarrow> \<not> vaccinated a \<Longrightarrow> dose a = 0 \<Longrightarrow> dose_ok b"
  by (auto simp: vaccinates_def fst_vaccinate dose_ok_def split: if_splits)

lemma init_succeeds_iff: "(\<exists>s. init cfg g = Inr s) \<longleftrightarrow> 1 \<le> N cfg"
proof -
  obtain pop0 g1 where c: "create_population cfg (nat (N cfg)) g = (pop0, g1)"
    by (cases "create_population cfg (nat (N cfg)) g")
  have l: "length pop0 = nat (N cfg)" using create_population_length[of cfg "nat (N cfg)" g] c by simp
  show ?thesis
  proof (cases "1 \<le> N cfg")
    case True
    with l have "length pop0 \<noteq> 0" by simp
    with c True show ?thesis
      by (simp add: init_def random_choice_def Let_def split: prod.splits)
  next
    case False
    with l have "length pop0 = 0" by simp
    with c False show ?thesis by (simp add: init_def random_choice_def)
  qed
qed

lemma init_fails: "N cfg \<le> 0 \<Longrightarrow> init cfg g = Inl IndexError"
proof -
  assume n: "N cfg \<le> 0"
  obtain pop0 g1 where c: "create_population cfg (nat (N cfg)) g = (pop0, g1)"
    by (cases "create_population cfg (nat (N cfg)) g")
  have l: "length pop0 = nat (N cfg)" using create_population_length[of cfg "nat (N cfg)" g] c by simp
  show ?thesis using c l n by (simp add: init_def random_choice_def)
qed

lemma init_population:
  assumes "init cfg g = Inr s"
  shows "length (population s) = nat (N cfg)"
    and "\<forall>p\<in>set (population s). (state p = ''S'' \<or> state p = ''E'') \<and> timer p = 0 \<and> dose_ok p"
    and "current_time s = 0"
proof -
  obtain pop0 g1 where c: "create_population cfg (nat (N cfg)) g = (pop0, g1)"
    by (cases "create_population cfg (nat (N cfg)) g")
  have l: "length pop0 = nat (N cfg)" using create_population_length[of cfg "nat (N cfg)" g] c by simp
  have f: "\<forall>p\<in>set pop0. fresh p" using create_population_fresh[of cfg "nat (N cfg)" g] c by simp
  from assms c obtain k g2 where ch: "random_choice (length pop0) g1 = Inr (k, g2)"
    by (auto simp: init_def split: sum.splits)
  define pop1 where "pop1 = pop0[k := (pop0 ! k)\<lparr>state := ''E'', timer := 0\<rparr>]"
  obtain pop2 g3 where v: "assign_vaccination pop1 g2 = (pop2, g3)"
    by (cases "assign_vaccination pop1 g2")
  from assms c ch v have s: "s = \<lparr>population = pop2, current_time = 0, random_state = g3\<rparr>"
    by (simp add: init_def pop1_def)
  have av: "list_all2 vaccinates pop1 pop2" using assign_vaccination_vaccinates[of pop1 g2] v by simp
  have l2: "length pop2 = length pop0" using av by (auto simp: list_all2_conv_all_nth pop1_def)
  show "length (population s) = nat (N cfg)" using s l l2 by simp
  show "current_time s = 0" using s by simp
  have p1: "\<forall>p\<in>set pop1. (state p = ''S'' \<or> state p = ''E'') \<and> timer p = 0 \<and> \<not> vaccinated p \<and> dose p = 0"
  proof
    fix p assume "p \<in> set pop1"
    then have "p \<in> insert ((pop0 ! k)\<lparr>state := ''E'', timer := 0\<rparr>) (set pop0)"
      unfolding pop1_def using set_update_subset_insert by fastforce
    moreover have "k < length pop0" using ch by (auto simp: random_choice_def split: if_splits)
    then have "fresh (pop0 ! k)" using f by simp
    ultimately show "(state p = ''S'' \<or> state p = ''E'') \<and> timer p = 0 \<and> \<not> vaccinated p \<and> dose p = 0"
      using f by (auto simp: fresh_def)
  qed
  show "\<forall>p\<in>set (population s). (state p = ''S'' \<or> state p = ''E'') \<and> timer p = 0 \<and> dose_ok p"
  proof
    fix q assume "q \<in> set (population s)"
    then have "q \<in> set pop2" using s by simp
    then obtain i where i: "i < length pop2" "q = pop2 ! i" by (auto simp: in_set_conv_nth)
    with av have vq: "vaccinates (pop1 ! i) q" and i1: "i < length pop1"
      by (auto simp: list_all2_conv_all_nth)
    from i1 have "pop1 ! i \<in> set pop1" by simp
    with p1 have h: "(state (pop1 ! i) = ''S'' \<or> state (pop1 ! i) = ''E'') \<and> timer (pop1 ! i) = 0
        \<and> \<not> vaccinated (pop1 ! i) \<and> dose (pop1 ! i) = 0" by blast
    with vaccinates_fields[OF vq] vaccinates_dose_ok[OF vq]
    show "(state q = ''S'' \<or> state q = ''E'') \<and> timer q = 0 \<and> dose_ok q" by auto
  qed
qed

subsection \<open>Evaluation on the concrete inputs\<close>

lemma draw_const:
  "random_random (rng_const u z) = (u, rng_const u z)"
  "random_gauss m sd (rng_const u z) = (m + z * sd, rng_const u z)"
  "random_uniform a b (rng_const u z) = (a + (b - a) * u, rng_const u z)"
  "random_choice (Suc n) (rng_const u z) = Inr (0, rng_const u z)"
  by (simp_all add: random_random_def random_gauss_def random_uniform_def random_choice_def
      rng_const_def)

lemma range_3: "[0..<3] = [0, 1, 2]"
  by (simp add: upt_rec numeral_3_eq_3)

lemma default_config_simps:
  "WIDTH default_config = 800" "HEIGHT default_config = 600" "N default_config = 1000"
  "infection_radius default_config = 15"
  "p_transmission_uncontrolled default_config = 3 / 10"
  "p_transmission_controlled default_config = 1 / 10"
  "control_time default_config = 200" "dt default_config = 1 / 10"
  "max_speed default_config = 4"
  "incubation_mean default_config = 60" "incubation_std default_config = 20"
  "infectious_mean default_config = 80" "infectious_std default_config = 15"
  by (simp_all add: default_config_def)

lemma small_config_simps:
  "WIDTH small_config = 800" "HEIGHT small_config = 600" "N small_config = 3"
  "infection_radius small_config = 15"
  "p_transmission_uncontrolled small_config = 3 / 10"
  "p_transmission_controlled small_config = 1 / 10"
  "control_time small_config = 200" "dt small_config = 1 / 10" "max_speed small_config = 4"
  "incubation_mean small_config = 60" "incubation_std small_config = 20"
  "infectious_mean small_config = 80" "infectious_std small_config = 15"
  by (simp_all add: small_config_def default_config_def)

lemmas eval_simps = draw_const range_3 default_config_simps small_config_simps person_at_def
  Person_init_def vaccinate_def update_def move_def wrap_def
  check_transmissions_def infect_from_def check_pair_def getitem_def distance_def hypot_def
  effective_prob_def p_transmission_at_def count_state_def

lemma init_small:
  "init small_config (rng_const 0 (- 10)) =
     Inr (small_state (''E'', 0) (''S'', 0) (''S'', 0) 0)"
  by (simp add: init_def eval_simps numeral_3_eq_3 small_state_def)

lemma tick_small_1:
  "tick small_config (small_state (''E'', 0) (''S'', 0) (''S'', 0) 0) =
     Inr (small_state (''I'', 0) (''E'', 0) (''E'', 0) (1 / 10), small_counts 0 2 1 0)"
  by (simp add: tick_def eval_simps small_state_def small_counts_def)

lemma tick_small_2:
  "tick small_config (small_state (''I'', 0) (''E'', 0) (''E'', 0) (1 / 10)) =
     Inr (small_state (''R'', 1 / 10) (''I'', 0) (''I'', 0) (2 / 10), small_counts 0 0 2 1)"
  by (simp add: tick_def eval_simps small_state_def small_counts_def)

lemma tick_small_3:
  "tick small_config (small_state (''R'', 1 / 10) (''I'', 0) (''I'', 0) (2 / 10)) =
     Inr (small_state (''R'', 1 / 10) (''R'', 1 / 10) (''R'', 1 / 10) (3 / 10), small_counts 0 0 0 3)"
  by (simp add: tick_def eval_simps small_state_def small_counts_def)

lemma run_small:
  "run small_config 3 (small_state (''E'', 0) (''S'', 0) (''S'', 0) 0) =
     Inr [small_state (''I'', 0) (''E'', 0) (''E'', 0) (1 / 10),
          small_state (''R'', 1 / 10) (''I'', 0) (''I'', 0) (2 / 10),
          small_state (''R'', 1 / 10) (''R'', 1 / 10) (''R'', 1 / 10) (3 / 10)]"
  using tick_small_1 tick_small_2 tick_small_3 by (simp add: numeral_3_eq_3)

lemma run_successively:
  assumes "run cfg n s = Inr ss" and "P s"
    and "\<And>t t' c. P t \<Longrightarrow> tick cfg t = Inr (t', c) \<Longrightarrow> P t' \<and> Rel t t'"
  shows "successively Rel (s # ss)"
  using assms(1,2)
proof (induction n arbitrary: s ss)
  case 0
  then show ?case by simp
next
  case (Suc n)
  from Suc.prems(1) obtain s' c ss' where t: "tick cfg s = Inr (s', c)"
    and r: "run cfg n s' = Inr ss'" and ss: "ss = s' # ss'"
    by (auto split: sum.splits prod.splits)
  from assms(3)[OF Suc.prems(2) t] have "P s'" "Rel s s'" by simp_all
  with Suc.IH[OF r] ss show ?case by simp
qed

lemma tick_progresses:
  assumes "tick cfg s = Inr (s', c)" and "k < length (population s)"
  shows "progresses (state (population s ! k)) (state (population s' ! k))"
proof -
  from tick_nth[OF assms] obtain b where
    u: "updates cfg (dt cfg) (population s ! k) b" and e: "exposes b (population s' ! k)" by blast
  from updates_cases[OF u] exposes_cases[OF e] show ?thesis
    by (auto simp: progresses_def)
qed

lemma tick_timer:
  assumes "tick cfg s = Inr (s', c)" and "k < length (population s)"
  shows "(state (population s ! k) = ''S'' \<and> state (population s' ! k) = ''E''
            \<longrightarrow> timer (population s' ! k) = 0) \<and>
         (state (population s ! k) = ''E'' \<and> state (population s' ! k) = ''I''
            \<longrightarrow> timer (population s' ! k) = 0) \<and>
         (state (population s ! k) = ''I'' \<and> state (population s' ! k) = ''R''
            \<longrightarrow> timer (population s' ! k) = timer (population s ! k) + dt cfg) \<and>
         (0 \<le> dt cfg \<and> 0 \<le> timer (population s ! k) \<longrightarrow> 0 \<le> timer (population s' ! k))"
proof -
  from tick_nth[OF assms] obtain b where
    u: "updates cfg (dt cfg) (population s ! k) b" and e: "exposes b (population s' ! k)" by blast
  from updates_cases[OF u] exposes_cases[OF e] show ?thesis
    by auto
qed

lemma tick_fields:
  assumes "tick cfg s = Inr (s', c)" and "k < length (population s)"
  shows "vaccinated (population s' ! k) = vaccinated (population s ! k) \<and>
         dose (population s' ! k) = dose (population s ! k) \<and>
         vel (population s' ! k) = vel (population s ! k)"
proof -
  from tick_nth[OF assms] obtain b where
    u: "updates cfg (dt cfg) (population s ! k) b" and e: "exposes b (population s' ! k)" by blast
  from updates_fields[OF u] exposes_fields[OF e] show ?thesis by simp
qed

lemma count_state_length: "count_state c pop = length (filter (\<lambda>p. state p = c) pop)"
  by (induction pop) (simp_all add: count_state_def)

lemma count_state_sum:
  assumes "\<forall>p\<in>set pop. compartment (state p)"
  shows "count_state ''S'' pop + count_state ''E'' pop + count_state ''I'' pop
           + count_state ''R'' pop = length pop"
  using assms
proof (induction pop)
  case Nil
  show ?case by (simp add: count_state_def)
next
  case (Cons p pop)
  then have "compartment (state p)" by simp
  then show ?case using Cons by (auto simp: count_state_length compartment_def)
qed

lemma progresses_compartment: "progresses a b \<Longrightarrow> compartment a \<Longrightarrow> compartment b"
  by (auto simp: progresses_def compartment_def)

lemma run_population_length:
  assumes "run cfg n s0 = Inr ss"
  shows "\<forall>s\<in>set ss. length (population s) = length (population s0)"
  by (rule run_invariant[OF assms, where P = "\<lambda>s. length (population s) = length (population s0)"])
     (simp_all add: tick_length)

lemma run_nth_mem:
  assumes "run cfg n s0 = Inr ss" and "m < n"
  shows "ss ! m \<in> set ss" and "(s0 # ss) ! m \<in> set (s0 # ss)"
  using assms run_length[OF assms(1)] by (simp_all del: set_simps)

lemma progresses_prefix:
  "successively progresses (x # xs) \<Longrightarrow> compartment x \<Longrightarrow>
     prefix (remdups_adj (x # xs)) (later_stages x)"
proof (induction xs arbitrary: x)
  case Nil
  then show ?case by (auto simp: compartment_def later_stages_def)
next
  case (Cons y xs)
  from Cons.prems have p: "progresses x y" and s: "successively progresses (y # xs)" by simp_all
  have cy: "compartment y" using progresses_compartment[OF p Cons.prems(2)] .
  note ih = Cons.IH[OF s cy]
  show ?case
  proof (cases "y = x")
    case True
    with ih show ?thesis by simp
  next
    case False
    with p have "later_stages x = x # later_stages y"
      by (auto simp: progresses_def later_stages_def)
    with ih False show ?thesis by simp
  qed
qed

lemma run_visited_progresses:
  assumes "run cfg n s0 = Inr ss" and "k < length (population s0)"
  shows "successively progresses (visited k (s0 # ss))"
proof -
  let ?Rel = "\<lambda>t t'. progresses (state (population t ! k)) (state (population t' ! k))"
  have "successively ?Rel (s0 # ss)"
  proof (rule run_successively[where P = "\<lambda>s. k < length (population s)", OF assms])
    fix t t' c
    assume "k < length (population t)" "tick cfg t = Inr (t', c)"
    then show "k < length (population t') \<and> ?Rel t t'"
      using tick_length[of cfg t t' c] tick_progresses[of cfg t t' c k] by simp
  qed
  then show ?thesis unfolding visited_def by (simp only: successively_map)
qed

lemma tick_compartment:
  assumes "tick cfg s = Inr (s', c)" and "\<forall>p\<in>set (population s). compartment (state p)"
  shows "\<forall>p\<in>set (population s'). compartment (state p)"
proof
  fix q assume "q \<in> set (population s')"
  then obtain k where k: "k < length (population s')" "q = population s' ! k"
    by (auto simp: in_set_conv_nth)
  then have k': "k < length (population s)" using tick_length[OF assms(1)] by simp
  then have "compartment (state (population s ! k))" using assms(2) by simp
  from progresses_compartment[OF tick_progresses[OF assms(1) k'] this] k
  show "compartment (state q)" by simp
qed

lemma invalid_config_simps:
  "WIDTH invalid_config = 800" "HEIGHT invalid_config = 600" "N invalid_config = 3"
  "infection_radius invalid_config = 0"
  "p_transmission_uncontrolled invalid_config = 2"
  "p_transmission_controlled invalid_config = 1 / 10"
  "control_time invalid_config = 200" "dt invalid_config = 0" "max_speed invalid_config = 4"
  "incubation_mean invalid_config = 60" "incubation_std invalid_config = 20"
  "infectious_mean invalid_config = 80" "infectious_std invalid_config = 15"
  by (simp_all add: invalid_config_def small_config_def default_config_def)

lemma check_transmissions_length:
  "check_transmissions cfg p (pop, g) = Inr (pop', g') \<Longrightarrow> length pop' = length pop"
  using check_transmissions_exposes[of cfg p pop g pop' g'] by (auto simp: list_all2_conv_all_nth)

lemma tick_unfold:
  assumes "tick cfg s = Inr (s', c)"
  shows "\<exists>pop1 g1. update_all cfg (dt cfg) (population s) (random_state s) = (pop1, g1) \<and>
           check_transmissions cfg (p_transmission_at cfg (current_time s + dt cfg)) (pop1, g1)
             = Inr (population s', random_state s')"
proof -
  obtain pop1 g1 where u: "update_all cfg (dt cfg) (population s) (random_state s) = (pop1, g1)"
    by (cases "update_all cfg (dt cfg) (population s) (random_state s)")
  with assms show ?thesis by (auto simp: tick_def Let_def split: sum.splits)
qed

lemma check_pair_trial:
  assumes "i < length pop" and "j < length pop" and "state (pop ! j) = ''S''"
    and "distance (pop ! i) (pop ! j) < infection_radius cfg"
  shows "check_pair cfg pB i j (pop, g) =
           Inr (if uniform_draws g 0 < effective_prob pB (pop ! j)
                then pop[j := (pop ! j)\<lparr>state := ''E'', timer := 0\<rparr>] else pop,
                g\<lparr>uniform_draws := (\<lambda>n. uniform_draws g (Suc n))\<rparr>)"
  using assms by (simp add: check_pair_def getitem_def random_random_def)

lemma check_pair_skip:
  assumes "i < length pop" and "j < length pop"
    and "state (pop ! j) \<noteq> ''S'' \<or> \<not> distance (pop ! i) (pop ! j) < infection_radius cfg"
  shows "check_pair cfg pB i j (pop, g) = Inr (pop, g)"
  using assms by (auto simp: check_pair_def getitem_def)

subsection \<open>The recorded pass computes what the pass computes\<close>

lemma erase_simps [simp]: "erase (Inl e) = Inl e" "erase (Inr (w, tr)) = Inr w"
  by (simp_all add: erase_def)

lemma for_range_erase:
  assumes "\<And>k w tr. erase (bodyT k (w, tr)) = body k w"
  shows "erase (for_range bodyT ks (w, tr)) = for_range body ks w"
proof (induction ks arbitrary: w tr)
  case Nil
  show ?case by simp
next
  case (Cons k ks)
  show ?case
  proof (cases "bodyT k (w, tr)")
    case (Inl e)
    with assms[of k w tr] have "body k w = Inl e" by simp
    with Inl show ?thesis by simp
  next
    case (Inr wl)
    obtain w' tr' where wl: "wl = (w', tr')" by (cases wl)
    with Inr assms[of k w tr] have "body k w = Inr w'" by simp
    with Inr wl Cons[of w' tr'] show ?thesis by simp
  qed
qed

lemma check_pair_traced_erase:
  "erase (check_pair_traced cfg p i j (w, tr)) = check_pair cfg p i j w"
  by (cases w) (simp add: check_pair_traced_def check_pair_def split: sum.splits prod.splits)

lemma infect_from_traced_erase:
  "erase (infect_from_traced cfg p i (w, tr)) = infect_from cfg p i w"
proof -
  have "erase (for_range (check_pair_traced cfg p i) ks (w, tr)) =
        for_range (check_pair cfg p i) ks w" for ks
    by (rule for_range_erase) (rule check_pair_traced_erase)
  then show ?thesis
    by (simp add: infect_from_traced_def infect_from_def split: sum.splits)
qed

lemma check_transmissions_traced_erase:
  "erase (check_transmissions_traced cfg p (w, tr)) = check_transmissions cfg p w"
  unfolding check_transmissions_traced_def check_transmissions_def
  by (rule for_range_erase) (rule infect_from_traced_erase)

lemma tick_trials_total:
  "(\<exists>tr. tick_trials cfg s = Inr tr) \<longleftrightarrow> (\<exists>s' c. tick cfg s = Inr (s', c))"
proof -
  obtain pop1 g1 where u: "update_all cfg (dt cfg) (population s) (random_state s) = (pop1, g1)"
    by (cases "update_all cfg (dt cfg) (population s) (random_state s)")
  let ?p = "p_transmission_at cfg (current_time s + dt cfg)"
  have e: "erase (check_transmissions_traced cfg ?p ((pop1, g1), [])) =
           check_transmissions cfg ?p (pop1, g1)"
    by (rule check_transmissions_traced_erase)
  show ?thesis
  proof (cases "check_transmissions_traced cfg ?p ((pop1, g1), [])")
    case (Inl x)
    with e have "check_transmissions cfg ?p (pop1, g1) = Inl x" by simp
    with Inl u show ?thesis by (simp add: tick_trials_def tick_def Let_def)
  next
    case (Inr wl)
    obtain w tr where "wl = (w, tr)" by (cases wl)
    with Inr e have "check_transmissions cfg ?p (pop1, g1) = Inr w" by simp
    with Inr u \<open>wl = (w, tr)\<close> show ?thesis
      by (cases w) (simp add: tick_trials_def tick_def Let_def)
  qed
qed

lemma for_range_upt:
  assumes "for_range body [0..<n] s = Inr s'" and "P 0 s"
    and "\<And>k t t'. k < n \<Longrightarrow> P k t \<Longrightarrow> body k t = Inr t' \<Longrightarrow> P (Suc k) t'"
  shows "P n s'"
  using assms
proof (induction n arbitrary: s')
  case 0
  then show ?case by simp
next
  case (Suc n)
  from Suc.prems(1) obtain t where a: "for_range body [0..<n] s = Inr t" and b: "body n t = Inr s'"
    by (auto simp: for_range_append split: sum.splits)
  have "P n t" using Suc.IH[OF a Suc.prems(2)] Suc.prems(3) by simp
  then show ?case using Suc.prems(3)[of n t s'] b by simp
qed

subsection \<open>The invariant of the recorded pass\<close>

lemma no_retrial_snoc:
  "no_retrial (tr @ [t]) \<longleftrightarrow> no_retrial tr \<and> (\<forall>s\<in>set tr. infected s \<longrightarrow> target s \<noteq> target t)"
proof
  assume h: "no_retrial (tr @ [t])"
  have a: "no_retrial tr"
    unfolding no_retrial_def
  proof (intro allI impI)
    fix a b assume ab: "a < b \<and> b < length tr \<and> infected (tr ! a)"
    then have "a < b \<and> b < length (tr @ [t]) \<and> infected ((tr @ [t]) ! a)"
      by (simp add: nth_append)
    with h have "target ((tr @ [t]) ! b) \<noteq> target ((tr @ [t]) ! a)"
      unfolding no_retrial_def by blast
    with ab show "target (tr ! b) \<noteq> target (tr ! a)" by (simp add: nth_append)
  qed
  have b: "\<forall>s\<in>set tr. infected s \<longrightarrow> target s \<noteq> target t"
  proof (intro ballI impI)
    fix s assume "s \<in> set tr" "infected s"
    then obtain a where a: "a < length tr" "tr ! a = s" by (auto simp: in_set_conv_nth)
    with \<open>infected s\<close> have "a < length tr \<and> length tr < length (tr @ [t]) \<and> infected ((tr @ [t]) ! a)"
      by (simp add: nth_append)
    with h have "target ((tr @ [t]) ! length tr) \<noteq> target ((tr @ [t]) ! a)"
      unfolding no_retrial_def by blast
    with a show "target s \<noteq> target t" by (simp add: nth_append)
  qed
  from a b show "no_retrial tr \<and> (\<forall>s\<in>set tr. infected s \<longrightarrow> target s \<noteq> target t)" by simp
next
  assume h: "no_retrial tr \<and> (\<forall>s\<in>set tr. infected s \<longrightarrow> target s \<noteq> target t)"
  show "no_retrial (tr @ [t])"
    unfolding no_retrial_def
  proof (intro allI impI)
    fix a b assume ab: "a < b \<and> b < length (tr @ [t]) \<and> infected ((tr @ [t]) ! a)"
    then have al: "a < length tr" by simp
    show "target ((tr @ [t]) ! b) \<noteq> target ((tr @ [t]) ! a)"
    proof (cases "b < length tr")
      case True
      with ab al h show ?thesis unfolding no_retrial_def by (simp add: nth_append)
    next
      case False
      with ab have "b = length tr" by simp
      moreover from al have "tr ! a \<in> set tr" by simp
      ultimately show ?thesis using ab al h by (auto simp: nth_append)
    qed
  qed
qed

lemma pass_inv_start: "pass_inv cfg p pop0 0 0 pop0 []"
  by (simp add: pass_inv_def list_all2_exposes_refl trialed_def infected_before_def
      no_retrial_def passed_def)

lemma passed_Suc_outer: "passed n i n = passed n (Suc i) 0"
  by (intro ext) (auto simp: passed_def)

lemma pass_inv_next_row: "pass_inv cfg p pop0 i (nat (N cfg)) pop tr = pass_inv cfg p pop0 (Suc i) 0 pop tr"
  by (simp add: pass_inv_def passed_Suc_outer)

lemma passed_mono: "passed n i j a b \<Longrightarrow> passed n i (Suc j) a b"
  by (auto simp: passed_def)

lemma passed_Suc: "passed n i (Suc j) a b \<longleftrightarrow> passed n i j a b \<or> (a = i \<and> b = j)"
  by (auto simp: passed_def)

lemma not_passed_self: "\<not> passed n i j i j"
  by (simp add: passed_def)

lemma check_pair_traced_cases:
  assumes "check_pair_traced cfg p i j ((pop, g), tr) = Inr ((pop', g'), tr')"
  shows "j < length pop \<and>
     (((state (pop ! j) \<noteq> ''S'' \<or> \<not> distance (pop ! i) (pop ! j) < infection_radius cfg) \<and>
        pop' = pop \<and> tr' = tr \<and> g' = g) \<or>
      (i < length pop \<and> state (pop ! j) = ''S'' \<and>
       distance (pop ! i) (pop ! j) < infection_radius cfg \<and>
       (\<exists>t. tr' = tr @ [t] \<and> infector t = i \<and> target t = j \<and> subject t = pop ! j \<and>
            prob t = effective_prob p (pop ! j) \<and> sample t = uniform_draws g 0 \<and>
            infected t = (sample t < prob t) \<and>
            pop' = (if infected t then pop[j := (pop ! j)\<lparr>state := ''E'', timer := 0\<rparr>] else pop) \<and>
            g' = g\<lparr>uniform_draws := (\<lambda>n. uniform_draws g (Suc n))\<rparr>)))"
proof -
  from assms have j: "j < length pop"
    by (auto simp: check_pair_traced_def getitem_def split: if_splits)
  show ?thesis
  proof (cases "state (pop ! j) \<noteq> ''S''")
    case True
    with assms j show ?thesis by (simp add: check_pair_traced_def getitem_def)
  next
    case False
    with assms j have i: "i < length pop"
      by (auto simp: check_pair_traced_def getitem_def split: if_splits)
    show ?thesis
    proof (cases "distance (pop ! i) (pop ! j) < infection_radius cfg")
      case f: False
      with assms j i False show ?thesis by (simp add: check_pair_traced_def getitem_def)
    next
      case d: True
      show ?thesis
      proof (cases "uniform_draws g 0 < effective_prob p (pop ! j)")
        case True
        with assms j i False d show ?thesis
          by (auto simp: check_pair_traced_def getitem_def random_random_def)
      next
        case u: False
        with assms j i False d show ?thesis
          by (auto simp: check_pair_traced_def getitem_def random_random_def)
      qed
    qed
  qed
qed

lemma exposes_still_susceptible: "exposes a b \<Longrightarrow> state b = ''S'' \<Longrightarrow> b = a"
  by (auto simp: exposes_def)

lemma exposes_not_susceptible: "exposes a b \<Longrightarrow> state a \<noteq> ''S'' \<Longrightarrow> b = a"
  by (auto simp: exposes_def)

lemma check_pair_traced_inv:
  assumes inv: "pass_inv cfg p pop0 i j pop tr"
    and i: "i < nat (N cfg)" and j: "j < nat (N cfg)" and si: "state (pop0 ! i) = ''I''"
    and il: "i < length pop0"
    and step: "check_pair_traced cfg p i j ((pop, g), tr) = Inr ((pop', g'), tr')"
  shows "pass_inv cfg p pop0 i (Suc j) pop' tr'"
proof -
  let ?n = "nat (N cfg)"
  from inv have I1: "list_all2 exposes pop0 pop"
    and I2: "\<forall>k<length pop0. state (pop ! k) \<noteq> state (pop0 ! k) \<longleftrightarrow> (\<exists>t\<in>set tr. target t = k \<and> infected t)"
    and I3: "\<forall>t\<in>set tr. passed ?n i j (infector t) (target t) \<and> target t < length pop0 \<and>
                  subject t = pop0 ! target t"
    and I4: "\<forall>i' j'. passed ?n i j i' j' \<longrightarrow>
        (trialed tr i' j' \<longleftrightarrow> candidate cfg pop0 i' j' \<and> \<not> infected_before tr i' j')"
    and I5: "no_retrial tr"
    and I6: "\<forall>t\<in>set tr. prob t = effective_prob p (subject t) \<and> infected t = (sample t < prob t)"
    by (simp_all add: pass_inv_def)
  from I1 have len: "length pop = length pop0" and ex: "\<And>k. k < length pop0 \<Longrightarrow> exposes (pop0 ! k) (pop ! k)"
    by (simp_all add: list_all2_conv_all_nth)
  have pi: "pop ! i = pop0 ! i" using exposes_not_susceptible[OF ex[OF il]] si by simp
  from check_pair_traced_cases[OF step] have jl: "j < length pop0" using len by simp
  have not_tr: "\<not> trialed tr i j"
    using I3 not_passed_self[of ?n i j] by (auto simp: trialed_def)
  from check_pair_traced_cases[OF step] consider
    (skip) "state (pop ! j) \<noteq> ''S'' \<or> \<not> distance (pop ! i) (pop ! j) < infection_radius cfg"
      "pop' = pop" "tr' = tr"
  | (trial) t where "state (pop ! j) = ''S''" "distance (pop ! i) (pop ! j) < infection_radius cfg"
      "tr' = tr @ [t]" "infector t = i" "target t = j" "subject t = pop ! j"
      "pop' = (if infected t then pop[j := (pop ! j)\<lparr>state := ''E'', timer := 0\<rparr>] else pop)"
      "prob t = effective_prob p (pop ! j)" "infected t = (sample t < prob t)"
    by blast
  then show ?thesis
  proof cases
    case skip
    have rhs: "\<not> (candidate cfg pop0 i j \<and> \<not> infected_before tr i j)"
    proof
      assume c: "candidate cfg pop0 i j \<and> \<not> infected_before tr i j"
      then have s0: "state (pop0 ! j) = ''S''"
        and d0: "distance (pop0 ! i) (pop0 ! j) < infection_radius cfg"
        by (simp_all add: candidate_def)
      show False
      proof (cases "state (pop ! j) = ''S''")
        case True
        then have "pop ! j = pop0 ! j" using exposes_still_susceptible[OF ex[OF jl]] by simp
        with pi d0 skip(1) True show False by simp
      next
        case False
        with s0 I2 jl obtain t where t: "t \<in> set tr" "target t = j" "infected t" by auto
        with I3 have "passed ?n i j (infector t) j" by auto
        then have "infector t < i" by (simp add: passed_def)
        with t have "infected_before tr i j" by (auto simp: infected_before_def)
        with c show False by simp
      qed
    qed
    have J4: "\<forall>i' j'. passed ?n i (Suc j) i' j' \<longrightarrow>
        (trialed tr i' j' \<longleftrightarrow> candidate cfg pop0 i' j' \<and> \<not> infected_before tr i' j')"
      using I4 not_tr rhs by (auto simp: passed_Suc)
    have J3: "\<forall>t\<in>set tr. passed ?n i (Suc j) (infector t) (target t) \<and> target t < length pop0 \<and>
                  subject t = pop0 ! target t"
      using I3 passed_mono by blast
    show ?thesis unfolding skip(2,3) pass_inv_def using I1 I2 J3 J4 I5 I6 by blast
  next
    case trial
    have pj: "pop ! j = pop0 ! j" using exposes_still_susceptible[OF ex[OF jl]] trial(1) by simp
    have clean: "\<forall>s\<in>set tr. infected s \<longrightarrow> target s \<noteq> j"
      using I2 jl pj by auto
    have J1: "list_all2 exposes pop0 pop'"
    proof (cases "infected t")
      case False
      with trial(7) I1 show ?thesis by simp
    next
      case True
      with trial(7) have p': "pop' = pop[j := (pop ! j)\<lparr>state := ''E'', timer := 0\<rparr>]" by simp
      show ?thesis unfolding p' list_all2_conv_all_nth
      proof (intro conjI allI impI)
        show "length pop0 = length (pop[j := (pop ! j)\<lparr>state := ''E'', timer := 0\<rparr>])"
          using len by simp
      next
        fix k assume k: "k < length pop0"
        show "exposes (pop0 ! k) (pop[j := (pop ! j)\<lparr>state := ''E'', timer := 0\<rparr>] ! k)"
        proof (cases "k = j")
          case True
          with k len pj trial(1) show ?thesis by (simp add: exposes_def)
        next
          case False
          with ex[OF k] show ?thesis by simp
        qed
      qed
    qed
    have J2: "\<forall>k<length pop0. state (pop' ! k) \<noteq> state (pop0 ! k) \<longleftrightarrow>
                (\<exists>s\<in>set tr'. target s = k \<and> infected s)"
    proof (intro allI impI)
      fix k assume k: "k < length pop0"
      show "state (pop' ! k) \<noteq> state (pop0 ! k) \<longleftrightarrow> (\<exists>s\<in>set tr'. target s = k \<and> infected s)"
      proof (cases "k = j")
        case True
        have "state (pop' ! j) \<noteq> state (pop0 ! j) \<longleftrightarrow> infected t"
          using trial(7) trial(1) pj jl len by auto
        moreover have "(\<exists>s\<in>set tr'. target s = j \<and> infected s) \<longleftrightarrow> infected t"
          using clean trial(3,5) by auto
        ultimately show ?thesis using True by simp
      next
        case False
        then have "pop' ! k = pop ! k" using trial(7) by simp
        moreover have "(\<exists>s\<in>set tr'. target s = k \<and> infected s) \<longleftrightarrow>
                       (\<exists>s\<in>set tr. target s = k \<and> infected s)"
          using False trial(3,5) by auto
        ultimately show ?thesis using I2 k by simp
      qed
    qed
    have J3: "\<forall>s\<in>set tr'. passed ?n i (Suc j) (infector s) (target s) \<and> target s < length pop0 \<and>
                  subject s = pop0 ! target s"
    proof
      fix s assume "s \<in> set tr'"
      then have "s \<in> set tr \<or> s = t" using trial(3) by auto
      then show "passed ?n i (Suc j) (infector s) (target s) \<and> target s < length pop0 \<and>
                  subject s = pop0 ! target s"
      proof
        assume "s \<in> set tr"
        with I3 passed_mono show ?thesis by blast
      next
        assume "s = t"
        with trial(4,5,6) pj jl show ?thesis by (simp add: passed_Suc)
      qed
    qed
    have before: "infected_before tr' i' j' \<longleftrightarrow> infected_before tr i' j'" if "i' \<le> i" for i' j'
      using that trial(3,4) by (auto simp: infected_before_def)
    have tried: "trialed tr' i' j' \<longleftrightarrow> trialed tr i' j' \<or> (i' = i \<and> j' = j)" for i' j'
      using trial(3,4,5) by (auto simp: trialed_def)
    have cand: "candidate cfg pop0 i j"
      using i j si pj pi trial(1,2) by (simp add: candidate_def)
    have nb: "\<not> infected_before tr i j"
      using clean by (auto simp: infected_before_def)
    have J4: "\<forall>i' j'. passed ?n i (Suc j) i' j' \<longrightarrow>
        (trialed tr' i' j' \<longleftrightarrow> candidate cfg pop0 i' j' \<and> \<not> infected_before tr' i' j')"
    proof (intro allI impI)
      fix i' j' assume p: "passed ?n i (Suc j) i' j'"
      then have le: "i' \<le> i" by (auto simp: passed_def)
      from p have "passed ?n i j i' j' \<or> (i' = i \<and> j' = j)" by (simp add: passed_Suc)
      then show "trialed tr' i' j' \<longleftrightarrow> candidate cfg pop0 i' j' \<and> \<not> infected_before tr' i' j'"
      proof
        assume q: "passed ?n i j i' j'"
        then have "\<not> (i' = i \<and> j' = j)" using not_passed_self by blast
        with I4 q show ?thesis unfolding before[OF le] tried by blast
      next
        assume "i' = i \<and> j' = j"
        with cand nb show ?thesis unfolding before[OF le] tried by simp
      qed
    qed
    have J5: "no_retrial tr'"
      unfolding trial(3) no_retrial_snoc using I5 clean trial(5) by simp
    have J6: "\<forall>s\<in>set tr'. prob s = effective_prob p (subject s) \<and> infected s = (sample s < prob s)"
      using I6 trial(3,6,8,9) by auto
    show ?thesis unfolding pass_inv_def using J1 J2 J3 J4 J5 J6 by blast
  qed
qed

lemma infect_from_traced_inv:
  assumes inv: "pass_inv cfg p pop0 i 0 pop tr" and i: "i < nat (N cfg)"
    and step: "infect_from_traced cfg p i ((pop, g), tr) = Inr ((pop', g'), tr')"
  shows "pass_inv cfg p pop0 (Suc i) 0 pop' tr'"
proof -
  let ?n = "nat (N cfg)"
  from inv have I1: "list_all2 exposes pop0 pop"
    and I2: "\<forall>k<length pop0. state (pop ! k) \<noteq> state (pop0 ! k) \<longleftrightarrow> (\<exists>t\<in>set tr. target t = k \<and> infected t)"
    and I3: "\<forall>t\<in>set tr. passed ?n i 0 (infector t) (target t) \<and> target t < length pop0 \<and>
                  subject t = pop0 ! target t"
    and I4: "\<forall>i' j'. passed ?n i 0 i' j' \<longrightarrow>
        (trialed tr i' j' \<longleftrightarrow> candidate cfg pop0 i' j' \<and> \<not> infected_before tr i' j')"
    and I5: "no_retrial tr"
    and I6: "\<forall>t\<in>set tr. prob t = effective_prob p (subject t) \<and> infected t = (sample t < prob t)"
    by (simp_all add: pass_inv_def)
  from I1 have len: "length pop = length pop0" and ex: "\<And>k. k < length pop0 \<Longrightarrow> exposes (pop0 ! k) (pop ! k)"
    by (simp_all add: list_all2_conv_all_nth)
  from step have il: "i < length pop0" using len
    by (auto simp: infect_from_traced_def getitem_def split: if_splits)
  show ?thesis
  proof (cases "state (pop ! i) = ''I''")
    case False
    with step il len have same: "pop' = pop" "tr' = tr"
      by (simp_all add: infect_from_traced_def getitem_def)
    have s0: "state (pop0 ! i) \<noteq> ''I''"
    proof
      assume "state (pop0 ! i) = ''I''"
      then have "pop ! i = pop0 ! i" using exposes_not_susceptible[OF ex[OF il]] by simp
      with False \<open>state (pop0 ! i) = ''I''\<close> show False by simp
    qed
    have J3: "\<forall>t\<in>set tr. passed ?n i ?n (infector t) (target t) \<and> target t < length pop0 \<and>
                  subject t = pop0 ! target t"
      using I3 by (auto simp: passed_def)
    have J4: "\<forall>i' j'. passed ?n i ?n i' j' \<longrightarrow>
        (trialed tr i' j' \<longleftrightarrow> candidate cfg pop0 i' j' \<and> \<not> infected_before tr i' j')"
    proof (intro allI impI)
      fix i' j' assume "passed ?n i ?n i' j'"
      then have "passed ?n i 0 i' j' \<or> i' = i" by (auto simp: passed_def)
      then show "trialed tr i' j' \<longleftrightarrow> candidate cfg pop0 i' j' \<and> \<not> infected_before tr i' j'"
      proof
        assume "passed ?n i 0 i' j'"
        with I4 show ?thesis by blast
      next
        assume e: "i' = i"
        have "\<not> trialed tr i j'" using I3 by (auto simp: trialed_def passed_def)
        moreover have "\<not> candidate cfg pop0 i j'" using s0 by (simp add: candidate_def)
        ultimately show ?thesis using e by simp
      qed
    qed
    have "pass_inv cfg p pop0 i ?n pop tr" unfolding pass_inv_def using I1 I2 J3 J4 I5 I6 by blast
    then show ?thesis unfolding same by (simp add: pass_inv_next_row)
  next
    case True
    have si: "state (pop0 ! i) = ''I''"
      using ex[OF il] True by (auto simp: exposes_def)
    from step il len True have loop:
      "for_range (check_pair_traced cfg p i) [0..<?n] ((pop, g), tr) = Inr ((pop', g'), tr')"
      by (simp add: infect_from_traced_def getitem_def)
    have "pass_inv cfg p pop0 i ?n (fst (fst ((pop', g'), tr'))) (snd ((pop', g'), tr'))"
    proof (rule for_range_upt[OF loop,
          where P = "\<lambda>k wl. pass_inv cfg p pop0 i k (fst (fst wl)) (snd wl)"])
      show "pass_inv cfg p pop0 i 0 (fst (fst ((pop, g), tr))) (snd ((pop, g), tr))"
        using inv by simp
    next
      fix k and t t' :: "world \<times> trial list"
      assume k: "k < ?n" and pk: "pass_inv cfg p pop0 i k (fst (fst t)) (snd t)"
        and b: "check_pair_traced cfg p i k t = Inr t'"
      from b have "check_pair_traced cfg p i k ((fst (fst t), snd (fst t)), snd t) =
                   Inr ((fst (fst t'), snd (fst t')), snd t')" by simp
      from check_pair_traced_inv[OF pk i k si il this]
      show "pass_inv cfg p pop0 i (Suc k) (fst (fst t')) (snd t')" .
    qed
    then show ?thesis by (simp add: pass_inv_next_row)
  qed
qed

lemma check_transmissions_traced_inv:
  assumes "check_transmissions_traced cfg p ((pop0, g0), []) = Inr ((pop', g'), tr)"
  shows "pass_inv cfg p pop0 (nat (N cfg)) 0 pop' tr"
proof -
  let ?n = "nat (N cfg)"
  have "pass_inv cfg p pop0 ?n 0 (fst (fst ((pop', g'), tr))) (snd ((pop', g'), tr))"
  proof (rule for_range_upt[OF assms[unfolded check_transmissions_traced_def],
        where P = "\<lambda>k wl. pass_inv cfg p pop0 k 0 (fst (fst wl)) (snd wl)"])
    show "pass_inv cfg p pop0 0 0 (fst (fst ((pop0, g0), []))) (snd ((pop0, g0), []))"
      by (simp add: pass_inv_start)
  next
    fix k and t t' :: "world \<times> trial list"
    assume k: "k < ?n" and pk: "pass_inv cfg p pop0 k 0 (fst (fst t)) (snd t)"
      and b: "infect_from_traced cfg p k t = Inr t'"
    from b have "infect_from_traced cfg p k ((fst (fst t), snd (fst t)), snd t) =
                 Inr ((fst (fst t'), snd (fst t')), snd t')" by simp
    from infect_from_traced_inv[OF pk k this]
    show "pass_inv cfg p pop0 (Suc k) 0 (fst (fst t')) (snd t')" .
  qed
  then show ?thesis by simp
qed

lemma traced_pass_facts:
  assumes "check_transmissions_traced cfg p ((pop0, g0), []) = Inr ((pop', g'), tr)"
  shows "\<forall>i j. trialed tr i j \<longleftrightarrow> candidate cfg pop0 i j \<and> \<not> infected_before tr i j"
    and "no_retrial tr"
    and "\<forall>t\<in>set tr. infector t < nat (N cfg) \<and> target t < nat (N cfg) \<and>
            target t < length pop0 \<and> subject t = pop0 ! target t"
    and "\<forall>k<length pop0. state (pop' ! k) \<noteq> state (pop0 ! k) \<longleftrightarrow>
            (\<exists>t\<in>set tr. target t = k \<and> infected t)"
    and "check_transmissions cfg p (pop0, g0) = Inr (pop', g')"
    and "\<forall>t\<in>set tr. prob t = effective_prob p (subject t) \<and> infected t = (sample t < prob t)"
proof -
  let ?n = "nat (N cfg)"
  from check_transmissions_traced_inv[OF assms] have
    I2: "\<forall>k<length pop0. state (pop' ! k) \<noteq> state (pop0 ! k) \<longleftrightarrow> (\<exists>t\<in>set tr. target t = k \<and> infected t)"
    and I3: "\<forall>t\<in>set tr. passed ?n ?n 0 (infector t) (target t) \<and> target t < length pop0 \<and>
                  subject t = pop0 ! target t"
    and I4: "\<forall>i' j'. passed ?n ?n 0 i' j' \<longrightarrow>
        (trialed tr i' j' \<longleftrightarrow> candidate cfg pop0 i' j' \<and> \<not> infected_before tr i' j')"
    and I5: "no_retrial tr"
    and I6: "\<forall>t\<in>set tr. prob t = effective_prob p (subject t) \<and> infected t = (sample t < prob t)"
    by (simp_all add: pass_inv_def)
  show "no_retrial tr" by (rule I5)
  show "\<forall>t\<in>set tr. prob t = effective_prob p (subject t) \<and> infected t = (sample t < prob t)"
    by (rule I6)
  show "\<forall>k<length pop0. state (pop' ! k) \<noteq> state (pop0 ! k) \<longleftrightarrow>
            (\<exists>t\<in>set tr. target t = k \<and> infected t)" by (rule I2)
  show J3: "\<forall>t\<in>set tr. infector t < ?n \<and> target t < ?n \<and>
            target t < length pop0 \<and> subject t = pop0 ! target t"
    using I3 by (auto simp: passed_def)
  show "\<forall>i j. trialed tr i j \<longleftrightarrow> candidate cfg pop0 i j \<and> \<not> infected_before tr i j"
  proof (intro allI)
    fix i j
    show "trialed tr i j \<longleftrightarrow> candidate cfg pop0 i j \<and> \<not> infected_before tr i j"
    proof (cases "i < ?n \<and> j < ?n")
      case True
      then have "passed ?n ?n 0 i j" by (simp add: passed_def)
      with I4 show ?thesis by blast
    next
      case False
      then have "\<not> trialed tr i j" using J3 by (auto simp: trialed_def)
      moreover from False have "\<not> candidate cfg pop0 i j" by (auto simp: candidate_def)
      ultimately show ?thesis by simp
    qed
  qed
  from check_transmissions_traced_erase[of cfg p "(pop0, g0)" "[]"] assms
  show "check_transmissions cfg p (pop0, g0) = Inr (pop', g')" by simp
qed

subsection \<open>Evaluation of the recorded pass\<close>

lemma hypot_0: "hypot x 0 = \<bar>x\<bar>"
  by (simp add: hypot_def)

lemmas traced_simps = draw_const range_3 small_config_simps person_at_def
  check_transmissions_traced_def infect_from_traced_def check_pair_traced_def getitem_def
  distance_def hypot_0 effective_prob_def

lemma pass_two_infectors:
  "check_transmissions_traced small_config (3 / 10) ((two_infectors, rng_const 0 0), []) =
     Inr (([person_at (0, 0) (0, 0) ''I'' 0 False 0, person_at (0, 0) (0, 0) ''I'' 0 False 0,
            person_at (0, 0) (0, 0) ''E'' 0 False 0], rng_const 0 0),
          [\<lparr>infector = 0, target = 2, subject = person_at (0, 0) (0, 0) ''S'' 0 False 0,
            prob = 3 / 10, sample = 0, infected = True\<rparr>])"
  by (simp add: traced_simps two_infectors_def)

lemma pass_edge_population:
  "check_transmissions_traced small_config (3 / 10) ((edge_population, rng_const 0 0), []) =
     Inr ((edge_population, rng_const 0 0), [])"
  by (simp add: traced_simps edge_population_def)

lemma pass_small:
  "check_transmissions_traced small_config (3 / 10)
     ((population (small_state (''I'', 0) (''S'', 0) (''S'', 0) 0), rng_const 0 (- 10)), []) =
     Inr ((population (small_state (''I'', 0) (''E'', 0) (''E'', 0) 0), rng_const 0 (- 10)),
          [small_trial 0 1, small_trial 0 2])"
  by (simp add: traced_simps small_state_def small_trial_def)

lemma tick_trials_small:
  "tick_trials small_config (small_state (''E'', 0) (''S'', 0) (''S'', 0) 0) =
     Inr [small_trial 0 1, small_trial 0 2]"
  by (simp add: tick_trials_def traced_simps small_state_def small_trial_def
      update_def move_def wrap_def p_transmission_at_def)

subsection \<open>The vaccination fields\<close>

lemma tick_trials_unfold:
  assumes "tick_trials cfg s = Inr tr"
  shows "\<exists>pop1 g1 pop' g'.
           update_all cfg (dt cfg) (population s) (random_state s) = (pop1, g1) \<and>
           check_transmissions_traced cfg (p_transmission_at cfg (current_time s + dt cfg))
             ((pop1, g1), []) = Inr ((pop', g'), tr)"
proof -
  obtain pop1 g1 where u: "update_all cfg (dt cfg) (population s) (random_state s) = (pop1, g1)"
    by (cases "update_all cfg (dt cfg) (population s) (random_state s)")
  with assms show ?thesis
    by (auto simp: tick_trials_def Let_def split: sum.splits)
qed

lemma tick_trials_subject:
  assumes "tick_trials cfg s = Inr tr" and "t \<in> set tr"
  shows "\<exists>k<length (population s). vaccinated (subject t) = vaccinated (population s ! k) \<and>
           dose (subject t) = dose (population s ! k)"
proof -
  from tick_trials_unfold[OF assms(1)] obtain pop1 g1 pop' g' where
    u: "update_all cfg (dt cfg) (population s) (random_state s) = (pop1, g1)" and
    c: "check_transmissions_traced cfg (p_transmission_at cfg (current_time s + dt cfg))
             ((pop1, g1), []) = Inr ((pop', g'), tr)" by blast
  from traced_pass_facts(3)[OF c] assms(2)
  have l: "target t < length pop1" and s: "subject t = pop1 ! target t" by simp_all
  have a: "list_all2 (updates cfg (dt cfg)) (population s) pop1"
    using update_all_updates[of cfg "dt cfg" "population s" "random_state s"] u by simp
  then have l': "target t < length (population s)" using l by (simp add: list_all2_conv_all_nth)
  with a have "updates cfg (dt cfg) (population s ! target t) (pop1 ! target t)"
    by (simp add: list_all2_conv_all_nth)
  from updates_fields[OF this] s l' show ?thesis by auto
qed

lemma dose_ok_no_fallback: "dose_ok q \<Longrightarrow> \<not> fallback_branch q"
  by (auto simp: dose_ok_def fallback_branch_def)

subsection \<open>The samples of the recorded pass\<close>

lemma check_pair_traced_samples:
  assumes "samples_inv g0 g tr"
    and "check_pair_traced cfg p i j ((pop, g), tr) = Inr ((pop', g'), tr')"
  shows "samples_inv g0 g' tr'"
proof -
  from check_pair_traced_cases[OF assms(2)] consider
    (skip) "tr' = tr" "g' = g"
  | (trial) t where "tr' = tr @ [t]" "sample t = uniform_draws g 0"
      "g' = g\<lparr>uniform_draws := (\<lambda>n. uniform_draws g (Suc n))\<rparr>"
    by blast
  then show ?thesis
  proof cases
    case skip
    with assms(1) show ?thesis by simp
  next
    case trial
    from assms(1) have a: "\<forall>k<length tr. sample (tr ! k) = uniform_draws g0 k"
      and b: "uniform_draws g = (\<lambda>n. uniform_draws g0 (n + length tr))"
      and c: "normal_draws g = normal_draws g0" "index_draws g = index_draws g0"
      by (simp_all add: samples_inv_def)
    have "sample t = uniform_draws g0 (length tr)" using trial(2) b by simp
    with a have "\<forall>k<length (tr @ [t]). sample ((tr @ [t]) ! k) = uniform_draws g0 k"
      by (auto simp: nth_append less_Suc_eq)
    moreover have "uniform_draws g' = (\<lambda>n. uniform_draws g0 (n + length (tr @ [t])))"
      using trial(3) b by simp
    ultimately show ?thesis using c trial(1,3) by (simp add: samples_inv_def)
  qed
qed

lemma infect_from_traced_samples:
  assumes "samples_inv g0 g tr"
    and "infect_from_traced cfg p i ((pop, g), tr) = Inr ((pop', g'), tr')"
  shows "samples_inv g0 g' tr'"
proof (cases "i < length pop \<and> state (pop ! i) = ''I''")
  case False
  with assms(2) have "g' = g" "tr' = tr"
    by (auto simp: infect_from_traced_def getitem_def split: if_splits)
  with assms(1) show ?thesis by simp
next
  case True
  with assms(2) have loop:
    "for_range (check_pair_traced cfg p i) [0..<nat (N cfg)] ((pop, g), tr) = Inr ((pop', g'), tr')"
    by (simp add: infect_from_traced_def getitem_def)
  have "samples_inv g0 (snd (fst ((pop', g'), tr'))) (snd ((pop', g'), tr'))"
  proof (rule for_range_invariant[OF loop,
        where P = "\<lambda>wl. samples_inv g0 (snd (fst wl)) (snd wl)"])
    show "samples_inv g0 (snd (fst ((pop, g), tr))) (snd ((pop, g), tr))" using assms(1) by simp
  next
    fix k and t t' :: "world \<times> trial list"
    assume q: "samples_inv g0 (snd (fst t)) (snd t)" and b: "check_pair_traced cfg p i k t = Inr t'"
    from b have "check_pair_traced cfg p i k ((fst (fst t), snd (fst t)), snd t) =
                 Inr ((fst (fst t'), snd (fst t')), snd t')" by simp
    from check_pair_traced_samples[OF q this] show "samples_inv g0 (snd (fst t')) (snd t')" .
  qed
  then show ?thesis by simp
qed

lemma check_transmissions_traced_samples:
  assumes "check_transmissions_traced cfg p ((pop0, g0), []) = Inr ((pop', g'), tr)"
  shows "samples_inv g0 g' tr"
proof -
  have "samples_inv g0 (snd (fst ((pop', g'), tr))) (snd ((pop', g'), tr))"
  proof (rule for_range_invariant[OF assms[unfolded check_transmissions_traced_def],
        where P = "\<lambda>wl. samples_inv g0 (snd (fst wl)) (snd wl)"])
    show "samples_inv g0 (snd (fst ((pop0, g0), []))) (snd ((pop0, g0), []))"
      by (simp add: samples_inv_def)
  next
    fix k and t t' :: "world \<times> trial list"
    assume q: "samples_inv g0 (snd (fst t)) (snd t)" and b: "infect_from_traced cfg p k t = Inr t'"
    from b have "infect_from_traced cfg p k ((fst (fst t), snd (fst t)), snd t) =
                 Inr ((fst (fst t'), snd (fst t')), snd t')" by simp
    from infect_from_traced_samples[OF q this] show "samples_inv g0 (snd (fst t')) (snd t')" .
  qed
  then show ?thesis by simp
qed

lemma update_uniform: "uniform_draws (snd (update cfg q d g)) = uniform_draws g"
  by (simp add: update_def Let_def random_gauss_def split: prod.splits)

lemma update_all_uniform: "uniform_draws (snd (update_all cfg d ps g)) = uniform_draws g"
proof (induction ps arbitrary: g)
  case Nil
  show ?case by simp
next
  case (Cons q ps)
  obtain q' g' where u: "update cfg q d g = (q', g')" by (cases "update cfg q d g")
  then have "uniform_draws g' = uniform_draws g" using update_uniform[of cfg q d g] by simp
  with Cons[of g'] u show ?case by (cases "update_all cfg d ps g'") simp
qed

lemma tick_trials_facts:
  assumes "tick_trials cfg s = Inr tr"
  shows "\<forall>t\<in>set tr. prob t = effective_prob (p_transmission_at cfg (current_time s + dt cfg)) (subject t) \<and>
                    infected t = (sample t < prob t)"
    and "\<forall>k<length tr. sample (tr ! k) = uniform_draws (random_state s) k"
proof -
  from tick_trials_unfold[OF assms] obtain pop1 g1 pop' g' where
    u: "update_all cfg (dt cfg) (population s) (random_state s) = (pop1, g1)" and
    c: "check_transmissions_traced cfg (p_transmission_at cfg (current_time s + dt cfg))
             ((pop1, g1), []) = Inr ((pop', g'), tr)" by blast
  show "\<forall>t\<in>set tr. prob t = effective_prob (p_transmission_at cfg (current_time s + dt cfg)) (subject t) \<and>
                    infected t = (sample t < prob t)"
    using traced_pass_facts(6)[OF c] .
  have "uniform_draws g1 = uniform_draws (random_state s)"
    using update_all_uniform[of cfg "dt cfg" "population s" "random_state s"] u by simp
  with check_transmissions_traced_samples[OF c]
  show "\<forall>k<length tr. sample (tr ! k) = uniform_draws (random_state s) k"
    by (simp add: samples_inv_def)
qed

subsection \<open>Positions and velocities\<close>

lemma unit_samples_random: "unit_samples g \<Longrightarrow> unit_samples (snd (random_random g))"
  by (simp add: unit_samples_def random_random_def)

lemma random_uniform_range:
  assumes "unit_samples g" and "0 \<le> b"
  shows "0 \<le> fst (random_uniform 0 b g) \<and> fst (random_uniform 0 b g) \<le> b \<and>
         unit_samples (snd (random_uniform 0 b g))"
proof -
  from assms(1) have u: "0 \<le> uniform_draws g 0" "uniform_draws g 0 \<le> 1"
    by (simp_all add: unit_samples_def)
  have "b * uniform_draws g 0 \<le> b * 1" using u(2) assms(2) by (rule mult_left_mono)
  moreover have "0 \<le> b * uniform_draws g 0" using u(1) assms(2) by simp
  ultimately show ?thesis
    using unit_samples_random[OF assms(1)]
    by (simp add: random_uniform_def random_random_def split: prod.splits)
qed

lemma bounded_component:
  assumes "0 \<le> s" and "s \<le> m" and "\<bar>c\<bar> \<le> 1"
  shows "\<bar>s * c\<bar> \<le> (m::real)"
proof -
  have "\<bar>s * c\<bar> = s * \<bar>c\<bar>" using assms(1) by (simp add: abs_mult)
  also have "\<dots> \<le> s * 1" using assms(3) assms(1) by (rule mult_left_mono)
  finally show ?thesis using assms(2) by simp
qed

lemma Person_init_in_world:
  assumes "unit_samples g" and "0 \<le> WIDTH cfg" and "0 \<le> HEIGHT cfg" and "0 \<le> max_speed cfg"
  shows "in_world cfg (fst (Person_init cfg g)) \<and> slow cfg (fst (Person_init cfg g)) \<and>
         unit_samples (snd (Person_init cfg g))"
proof -
  obtain x g1 where a: "random_uniform 0 (WIDTH cfg) g = (x, g1)" by (cases "random_uniform 0 (WIDTH cfg) g")
  obtain y g2 where b: "random_uniform 0 (HEIGHT cfg) g1 = (y, g2)" by (cases "random_uniform 0 (HEIGHT cfg) g1")
  obtain an g3 where c: "random_uniform 0 (2 * pi) g2 = (an, g3)" by (cases "random_uniform 0 (2 * pi) g2")
  obtain sp g4 where d: "random_uniform 0 (max_speed cfg) g3 = (sp, g4)" by (cases "random_uniform 0 (max_speed cfg) g3")
  from random_uniform_range[OF assms(1,2)] a have x: "0 \<le> x" "x \<le> WIDTH cfg" "unit_samples g1" by simp_all
  from random_uniform_range[OF x(3) assms(3)] b have y: "0 \<le> y" "y \<le> HEIGHT cfg" "unit_samples g2" by simp_all
  have "0 \<le> 2 * pi" by simp
  from random_uniform_range[OF y(3) this] c have an: "unit_samples g3" by simp
  from random_uniform_range[OF an assms(4)] d have sp: "0 \<le> sp" "sp \<le> max_speed cfg" "unit_samples g4" by simp_all
  have "\<bar>sp * cos an\<bar> \<le> max_speed cfg" using sp(1,2) by (rule bounded_component) simp
  moreover have "\<bar>sp * sin an\<bar> \<le> max_speed cfg" using sp(1,2) by (rule bounded_component) simp
  ultimately show ?thesis using a b c d x y sp
    by (simp add: Person_init_def in_world_def slow_def)
qed

lemma create_population_in_world:
  assumes "0 \<le> WIDTH cfg" and "0 \<le> HEIGHT cfg" and "0 \<le> max_speed cfg"
  shows "unit_samples g \<Longrightarrow>
     (\<forall>q\<in>set (fst (create_population cfg n g)). in_world cfg q \<and> slow cfg q)"
proof (induction n arbitrary: g)
  case 0
  show ?case by simp
next
  case (Suc n)
  obtain q g' where q: "Person_init cfg g = (q, g')" by (cases "Person_init cfg g")
  obtain qs g'' where qs: "create_population cfg n g' = (qs, g'')"
    by (cases "create_population cfg n g'")
  from Person_init_in_world[OF Suc.prems assms] q
  have a: "in_world cfg q" "slow cfg q" "unit_samples g'" by simp_all
  from Suc.IH[OF a(3)] qs have "\<forall>r\<in>set qs. in_world cfg r \<and> slow cfg r" by simp
  with a q qs show ?case by simp
qed

lemma init_in_world:
  assumes "init cfg g = Inr s" and "unit_samples g"
    and "0 \<le> WIDTH cfg" and "0 \<le> HEIGHT cfg" and "0 \<le> max_speed cfg"
  shows "\<forall>q\<in>set (population s). in_world cfg q \<and> slow cfg q"
proof -
  obtain pop0 g1 where c: "create_population cfg (nat (N cfg)) g = (pop0, g1)"
    by (cases "create_population cfg (nat (N cfg)) g")
  have f: "\<forall>q\<in>set pop0. in_world cfg q \<and> slow cfg q"
    using create_population_in_world[OF assms(3-5) assms(2), of "nat (N cfg)"] c by simp
  from assms(1) c obtain k g2 where ch: "random_choice (length pop0) g1 = Inr (k, g2)"
    by (auto simp: init_def split: sum.splits)
  define pop1 where "pop1 = pop0[k := (pop0 ! k)\<lparr>state := ''E'', timer := 0\<rparr>]"
  obtain pop2 g3 where v: "assign_vaccination pop1 g2 = (pop2, g3)"
    by (cases "assign_vaccination pop1 g2")
  from assms(1) c ch v have s: "population s = pop2"
    by (auto simp: init_def pop1_def)
  have kl: "k < length pop0" using ch by (auto simp: random_choice_def split: if_splits)
  have p1: "\<forall>i<length pop0. in_world cfg (pop1 ! i) \<and> slow cfg (pop1 ! i)"
  proof (intro allI impI)
    fix i assume i: "i < length pop0"
    then have "in_world cfg (pop0 ! i) \<and> slow cfg (pop0 ! i)" using f by simp
    then show "in_world cfg (pop1 ! i) \<and> slow cfg (pop1 ! i)"
      using i by (cases "i = k") (simp_all add: pop1_def in_world_def slow_def)
  qed
  have av: "list_all2 vaccinates pop1 pop2" using assign_vaccination_vaccinates[of pop1 g2] v by simp
  show ?thesis unfolding s
  proof
    fix q assume "q \<in> set pop2"
    then obtain i where i: "i < length pop2" "q = pop2 ! i" by (auto simp: in_set_conv_nth)
    with av have vq: "vaccinates (pop1 ! i) q" and i1: "i < length pop1"
      by (auto simp: list_all2_conv_all_nth)
    from i1 have "i < length pop0" by (simp add: pop1_def)
    with p1 have "in_world cfg (pop1 ! i) \<and> slow cfg (pop1 ! i)" by simp
    with vaccinates_fields[OF vq] show "in_world cfg q \<and> slow cfg q"
      by (simp add: in_world_def slow_def)
  qed
qed

lemma tick_in_world:
  assumes "tick cfg s = Inr (s', c)"
    and "\<forall>q\<in>set (population s). in_world cfg q \<and> slow cfg q"
    and "0 \<le> dt cfg" and "max_speed cfg * dt cfg \<le> WIDTH cfg" and "max_speed cfg * dt cfg \<le> HEIGHT cfg"
  shows "\<forall>q\<in>set (population s'). in_world cfg q \<and> slow cfg q"
proof
  fix q assume "q \<in> set (population s')"
  then obtain k where k: "k < length (population s')" "q = population s' ! k"
    by (auto simp: in_set_conv_nth)
  then have kl: "k < length (population s)" using tick_length[OF assms(1)] by simp
  let ?a = "population s ! k"
  from kl assms(2) have a: "in_world cfg ?a" "slow cfg ?a" by simp_all
  from tick_nth[OF assms(1) kl] obtain b where
    u: "updates cfg (dt cfg) ?a b" and e: "exposes b q" using k by blast
  from updates_fields[OF u] exposes_fields[OF e]
  have v: "vel q = vel ?a" and p: "pos q = pos (move cfg ?a (dt cfg))" by simp_all
  have bx: "\<bar>fst (vel ?a) * dt cfg\<bar> \<le> WIDTH cfg"
  proof -
    have "\<bar>fst (vel ?a) * dt cfg\<bar> = \<bar>fst (vel ?a)\<bar> * dt cfg" using assms(3) by (simp add: abs_mult)
    also have "\<dots> \<le> max_speed cfg * dt cfg" using a(2) assms(3) by (simp add: slow_def mult_right_mono)
    finally show ?thesis using assms(4) by simp
  qed
  have by': "\<bar>snd (vel ?a) * dt cfg\<bar> \<le> HEIGHT cfg"
  proof -
    have "\<bar>snd (vel ?a) * dt cfg\<bar> = \<bar>snd (vel ?a)\<bar> * dt cfg" using assms(3) by (simp add: abs_mult)
    also have "\<dots> \<le> max_speed cfg * dt cfg" using a(2) assms(3) by (simp add: slow_def mult_right_mono)
    finally show ?thesis using assms(5) by simp
  qed
  from a(1) have x: "0 \<le> fst (pos ?a)" "fst (pos ?a) \<le> WIDTH cfg" "0 \<le> snd (pos ?a)" "snd (pos ?a) \<le> HEIGHT cfg"
    by (simp_all add: in_world_def)
  from wrap_closed[OF x(1,2) bx] wrap_closed[OF x(3,4) by'] p a(2) v
  show "in_world cfg q \<and> slow cfg q" by (simp add: in_world_def slow_def move_def)
qed

lemma run_in_world:
  assumes "init cfg g = Inr s0" and "run cfg n s0 = Inr ss" and "unit_samples g"
    and "0 \<le> WIDTH cfg" and "0 \<le> HEIGHT cfg" and "0 \<le> max_speed cfg"
    and "0 \<le> dt cfg" and "max_speed cfg * dt cfg \<le> WIDTH cfg" and "max_speed cfg * dt cfg \<le> HEIGHT cfg"
  shows "\<forall>s\<in>set (s0 # ss). \<forall>q\<in>set (population s). in_world cfg q"
proof -
  let ?P = "\<lambda>s. \<forall>q\<in>set (population s). in_world cfg q \<and> slow cfg q"
  have p0: "?P s0" using init_in_world[OF assms(1,3,4,5,6)] .
  have step: "\<And>t t' c. ?P t \<Longrightarrow> tick cfg t = Inr (t', c) \<Longrightarrow> ?P t'"
    using tick_in_world[OF _ _ assms(7,8,9)] by blast
  have "\<forall>s\<in>set ss. ?P s" by (rule run_invariant[where P = ?P, OF assms(2) p0 step])
  with p0 show ?thesis by simp
qed

lemma update_in_closed_box:
  assumes "0 \<le> fst (pos p)" and "fst (pos p) \<le> WIDTH cfg" and "\<bar>fst (vel p) * dt'\<bar> \<le> WIDTH cfg"
    and "0 \<le> snd (pos p)" and "snd (pos p) \<le> HEIGHT cfg" and "\<bar>snd (vel p) * dt'\<bar> \<le> HEIGHT cfg"
  shows "0 \<le> fst (pos (fst (update cfg p dt' g))) \<and> fst (pos (fst (update cfg p dt' g))) \<le> WIDTH cfg \<and>
         0 \<le> snd (pos (fst (update cfg p dt' g))) \<and> snd (pos (fst (update cfg p dt' g))) \<le> HEIGHT cfg \<and>
         fst (pos (fst (update cfg p dt' g))) =
           (if fst (pos p) + fst (vel p) * dt' < 0 then fst (pos p) + fst (vel p) * dt' + WIDTH cfg
            else if fst (pos p) + fst (vel p) * dt' > WIDTH cfg then fst (pos p) + fst (vel p) * dt' - WIDTH cfg
            else fst (pos p) + fst (vel p) * dt') \<and>
         snd (pos (fst (update cfg p dt' g))) =
           (if snd (pos p) + snd (vel p) * dt' < 0 then snd (pos p) + snd (vel p) * dt' + HEIGHT cfg
            else if snd (pos p) + snd (vel p) * dt' > HEIGHT cfg then snd (pos p) + snd (vel p) * dt' - HEIGHT cfg
            else snd (pos p) + snd (vel p) * dt') \<and>
         (pos p = (WIDTH cfg - 1 / 10, snd (pos p)) \<and> vel p = (5, 0) \<and> dt' = 1 \<longrightarrow>
            pos (fst (update cfg p dt' g)) = (49 / 10, snd (pos p)))"
proof -
  have x: "0 \<le> wrap (WIDTH cfg) (fst (pos p) + fst (vel p) * dt') \<and>
           wrap (WIDTH cfg) (fst (pos p) + fst (vel p) * dt') \<le> WIDTH cfg"
    using assms(1-3) by (rule wrap_closed)
  have y: "0 \<le> wrap (HEIGHT cfg) (snd (pos p) + snd (vel p) * dt') \<and>
           wrap (HEIGHT cfg) (snd (pos p) + snd (vel p) * dt') \<le> HEIGHT cfg"
    using assms(4-6) by (rule wrap_closed)
  have p: "pos (fst (update cfg p dt' g)) =
      (wrap (WIDTH cfg) (fst (pos p) + fst (vel p) * dt'),
       wrap (HEIGHT cfg) (snd (pos p) + snd (vel p) * dt'))"
    by (simp add: pos_update move_def)
  have e: "pos p = (WIDTH cfg - 1 / 10, snd (pos p)) \<and> vel p = (5, 0) \<and> dt' = 1 \<longrightarrow>
            pos (fst (update cfg p dt' g)) = (49 / 10, snd (pos p))"
  proof
    assume h: "pos p = (WIDTH cfg - 1 / 10, snd (pos p)) \<and> vel p = (5, 0) \<and> dt' = 1"
    then have fx: "fst (pos p) = WIDTH cfg - 1 / 10" by (metis fst_conv)
    from h have v: "fst (vel p) = 5" "snd (vel p) = 0" "dt' = 1" by simp_all
    have "0 \<le> WIDTH cfg" using assms(1,2) by simp
    then have "wrap (WIDTH cfg) (fst (pos p) + fst (vel p) * dt') = 49 / 10"
      using fx v by (simp add: wrap_def)
    moreover have "wrap (HEIGHT cfg) (snd (pos p) + snd (vel p) * dt') = snd (pos p)"
      using v assms(4,5) by (simp add: wrap_def)
    ultimately show "pos (fst (update cfg p dt' g)) = (49 / 10, snd (pos p))"
      using p by simp
  qed
  show ?thesis using x y e unfolding p by (simp add: wrap_def)
qed

lemma gauss_rng_two: "random_gauss m sd (rng_two z0 z1) = (m + z0 * sd, rng_const 0 z1)"
  by (simp add: random_gauss_def rng_two_def rng_const_def)

section \<open>Claims\<close>

subsection \<open>C1: the timer at transitions\<close>

text \<open>
  Counterexample to C1: the claim resets the timer at every transition, recovery included.
  An infectious person with timer 0 that recovers in \<open>update\<close> (the draw is clamped to
  0) leaves the call recovered with timer 0.1: the branch sets only the state.
\<close>

theorem recovery_keeps_timer_counterexample:
  "state (person_at (0, 0) (0, 0) ''I'' 0 False 0) = ''I'' \<and>
   state (fst (update default_config (person_at (0, 0) (0, 0) ''I'' 0 False 0)
                (dt default_config) (rng_const 0 (- 10)))) = ''R'' \<and>
   timer (fst (update default_config (person_at (0, 0) (0, 0) ''I'' 0 False 0)
                (dt default_config) (rng_const 0 (- 10)))) = 1 / 10"
  by (simp add: eval_simps)

text \<open>
  C1 (amended): in every run from the initial population, with a non-negative time
  step, the timer is 0 right after a step from susceptible to exposed and right after a
  step from exposed to infectious; a step from infectious to recovered leaves the timer at
  its incremented value; and the timer of every person is non-negative in every state of
  the run.
\<close>

theorem timer_reset_and_nonneg:
  assumes "init cfg g = Inr s0" and "run cfg n s0 = Inr ss" and "0 \<le> dt cfg"
    and "m < n" and "k < nat (N cfg)"
  shows "(state (population ((s0 # ss) ! m) ! k) = ''S'' \<and> state (population (ss ! m) ! k) = ''E''
            \<longrightarrow> timer (population (ss ! m) ! k) = 0) \<and>
         (state (population ((s0 # ss) ! m) ! k) = ''E'' \<and> state (population (ss ! m) ! k) = ''I''
            \<longrightarrow> timer (population (ss ! m) ! k) = 0) \<and>
         (state (population ((s0 # ss) ! m) ! k) = ''I'' \<and> state (population (ss ! m) ! k) = ''R''
            \<longrightarrow> timer (population (ss ! m) ! k) = timer (population ((s0 # ss) ! m) ! k) + dt cfg) \<and>
         0 \<le> timer (population ((s0 # ss) ! m) ! k) \<and> 0 \<le> timer (population (ss ! m) ! k)"
proof -
  let ?P = "\<lambda>s. length (population s) = nat (N cfg) \<and> (\<forall>j<nat (N cfg). 0 \<le> timer (population s ! j))"
  have p0: "?P s0" using init_population(1,2)[OF assms(1)] by simp
  have step: "\<And>t t' c. ?P t \<Longrightarrow> tick cfg t = Inr (t', c) \<Longrightarrow> ?P t'"
  proof -
    fix t t' c assume pt: "?P t" and tk: "tick cfg t = Inr (t', c)"
    show "?P t'"
    proof (intro conjI allI impI)
      show "length (population t') = nat (N cfg)" using tick_length[OF tk] pt by simp
    next
      fix j assume j: "j < nat (N cfg)"
      then have "j < length (population t)" using pt by simp
      from tick_timer[OF tk this] assms(3) pt j show "0 \<le> timer (population t' ! j)" by simp
    qed
  qed
  have all: "\<forall>s\<in>set ss. ?P s" by (rule run_invariant[where P = ?P, OF assms(2) p0 step])
  from run_steps[OF assms(2,4)] obtain c where
    tk: "tick cfg ((s0 # ss) ! m) = Inr (ss ! m, c)" by blast
  have pa: "?P ((s0 # ss) ! m)" using all p0 run_nth_mem(2)[OF assms(2,4)] by auto
  have pb: "?P (ss ! m)" using all run_nth_mem(1)[OF assms(2,4)] by blast
  from pa assms(5) have k: "k < length (population ((s0 # ss) ! m))" by simp
  from tick_timer[OF tk k] pa pb assms(5) show ?thesis by simp
qed

theorem timer_reset_and_nonneg_witness:
  "init small_config (rng_const 0 (- 10)) = Inr (small_state (''E'', 0) (''S'', 0) (''S'', 0) 0) \<and>
   run small_config 3 (small_state (''E'', 0) (''S'', 0) (''S'', 0) 0) =
     Inr [small_state (''I'', 0) (''E'', 0) (''E'', 0) (1 / 10),
          small_state (''R'', 1 / 10) (''I'', 0) (''I'', 0) (2 / 10),
          small_state (''R'', 1 / 10) (''R'', 1 / 10) (''R'', 1 / 10) (3 / 10)] \<and>
   0 \<le> dt small_config \<and> (1::nat) < 3 \<and> 0 < nat (N small_config) \<and>
   state (population (small_state (''I'', 0) (''E'', 0) (''E'', 0) (1 / 10)) ! 0) = ''I'' \<and>
   state (population (small_state (''R'', 1 / 10) (''I'', 0) (''I'', 0) (2 / 10)) ! 0) = ''R'' \<and>
   timer (population (small_state (''R'', 1 / 10) (''I'', 0) (''I'', 0) (2 / 10)) ! 0) =
     timer (population (small_state (''I'', 0) (''E'', 0) (''E'', 0) (1 / 10)) ! 0) + dt small_config"
proof -
  have h: "0 \<le> dt small_config" "(1::nat) < 3" "0 < nat (N small_config)"
    by (simp_all add: small_config_simps)
  have sel: "state (population (small_state a b c t) ! 0) = fst a"
    "timer (population (small_state a b c t) ! 0) = snd a" for a b c t
    by (simp_all add: small_state_def person_at_def)
  from timer_reset_and_nonneg[OF init_small run_small h] init_small run_small h
  show ?thesis by (simp add: sel)
qed

subsection \<open>C2: dwell thresholds\<close>

text \<open>
  Counterexample to C2: the claim draws the threshold once, when the person enters the
  compartment, and holds it fixed. With a random source whose normal variates are 0 and
  then \<open>-3\<close> for ever, the only thresholds a single draw can give are 60 and 0. The
  first call of \<open>update\<close> on an exposed person keeps it exposed with timer 0.1,
  although 0.1 has reached the threshold 0; the second call makes it infectious with
  timer 0.2, although 0.2 is below the threshold 60. No threshold drawn once explains
  both calls: each call compares with its own draw.
\<close>

theorem update_threshold_redrawn_counterexample:
  "update default_config (person_at (0, 0) (0, 0) ''E'' 0 False 0) (1 / 10) (rng_two 0 (- 3)) =
     (person_at (0, 0) (0, 0) ''E'' (1 / 10) False 0, rng_const 0 (- 3)) \<and>
   update default_config (person_at (0, 0) (0, 0) ''E'' (1 / 10) False 0) (1 / 10)
       (rng_const 0 (- 3)) =
     (person_at (0, 0) (0, 0) ''I'' 0 False 0, rng_const 0 (- 3)) \<and>
   max 0 (incubation_mean default_config + 0 * incubation_std default_config) = 60 \<and>
   max 0 (incubation_mean default_config + (- 3) * incubation_std default_config) = 0 \<and>
   1 / 10 + 1 / 10 < (60::real) \<and> (0::real) \<le> 0 + 1 / 10"
  by (simp add: gauss_rng_two eval_simps)

text \<open>
  C2 (amended): every call of \<open>update\<close> on an exposed (resp. infectious) person adds
  \<open>dt\<close> to the timer, takes one fresh draw \<open>max(0, gauss(mean, std))\<close> from the random
  source in that very call, and moves the person on exactly when the incremented timer
  has reached that draw; no threshold is kept from one call to the next. Persons in other
  states only move and draw nothing.
\<close>

theorem update_fresh_threshold:
  "(state p = ''E'' \<longrightarrow>
      update cfg p dt' g =
        (if timer p + dt' \<ge> max 0 (incubation_mean cfg + normal_draws g 0 * incubation_std cfg)
         then (move cfg p dt')\<lparr>timer := 0, state := ''I''\<rparr>
         else (move cfg p dt')\<lparr>timer := timer p + dt'\<rparr>,
         g\<lparr>normal_draws := (\<lambda>n. normal_draws g (Suc n))\<rparr>)) \<and>
   (state p = ''I'' \<longrightarrow>
      update cfg p dt' g =
        (if timer p + dt' \<ge> max 0 (infectious_mean cfg + normal_draws g 0 * infectious_std cfg)
         then (move cfg p dt')\<lparr>timer := timer p + dt', state := ''R''\<rparr>
         else (move cfg p dt')\<lparr>timer := timer p + dt'\<rparr>,
         g\<lparr>normal_draws := (\<lambda>n. normal_draws g (Suc n))\<rparr>)) \<and>
   (state p \<noteq> ''E'' \<and> state p \<noteq> ''I'' \<longrightarrow> update cfg p dt' g = (move cfg p dt', g))"
  by (simp add: update_E update_I update_other random_gauss_def Let_def)

theorem update_fresh_threshold_witness:
  "update default_config (person_at (0, 0) (0, 0) ''E'' 0 False 0) (1 / 10) (rng_const 0 (- 3)) =
     (person_at (0, 0) (0, 0) ''I'' 0 False 0, rng_const 0 (- 3)) \<and>
   update default_config (person_at (0, 0) (0, 0) ''I'' 0 False 0) (1 / 10) (rng_const 0 (- 3)) =
     (person_at (0, 0) (0, 0) ''I'' (1 / 10) False 0, rng_const 0 (- 3)) \<and>
   update default_config (person_at (0, 0) (0, 0) ''S'' 0 False 0) (1 / 10) (rng_const 0 (- 3)) =
     (person_at (0, 0) (0, 0) ''S'' 0 False 0, rng_const 0 (- 3))"
  using update_fresh_threshold[of "person_at (0, 0) (0, 0) ''E'' 0 False 0" default_config "1 / 10" "rng_const 0 (- 3)"]
    update_fresh_threshold[of "person_at (0, 0) (0, 0) ''I'' 0 False 0" default_config "1 / 10" "rng_const 0 (- 3)"]
    update_fresh_threshold[of "person_at (0, 0) (0, 0) ''S'' 0 False 0" default_config "1 / 10" "rng_const 0 (- 3)"]
  by (simp add: person_at_def default_config_simps move_def wrap_def rng_const_def)

subsection \<open>C3: position after update\<close>

text \<open>
  Counterexample to C3: the claim puts both coordinates in the half-open box
  \<open>[0, W) \<times> [0, H)\<close> after every update. A person at \<open>x = 799.75\<close> with velocity
  \<open>(2.5, 0)\<close>, updated with the program's time step \<open>dt = 0.1\<close>, lands exactly on
  \<open>x = W = 800\<close>: the test \<open>pos[0] > WIDTH\<close> is strict, so the coordinate stays on the edge.
\<close>

theorem update_position_half_open_counterexample:
  "fst (pos (person_at (3199 / 4, 0) (5 / 2, 0) ''S'' 0 False 0)) < WIDTH default_config \<and>
   fst (pos (fst (update default_config (person_at (3199 / 4, 0) (5 / 2, 0) ''S'' 0 False 0)
                   (dt default_config) (rng_const 0 0)))) = WIDTH default_config"
  by (simp add: eval_simps)

text \<open>
  C3 (amended): for a person whose coordinates lie in the closed box \<open>[0, W] \<times> [0, H]\<close>
  and whose displacement in one call is at most the dimension on each axis, both
  coordinates lie in the closed box again after \<open>update\<close>; a coordinate that left
  \<open>[0, dimension]\<close> is shifted by exactly the dimension, one that did not is kept; and
  a person at \<open>(W - 0.1, y)\<close> with velocity \<open>(5, 0)\<close> and \<open>dt = 1\<close> ends at
  \<open>(4.9, y)\<close>. In every run from the initial population, with uniform samples in the
  unit interval and a step \<open>max_speed * dt\<close> no longer than the world, every person is in
  the closed box in every state.
\<close>

theorem update_position_closed_box:
  "(0 \<le> fst (pos p) \<and> fst (pos p) \<le> WIDTH cfg \<and> \<bar>fst (vel p) * dt'\<bar> \<le> WIDTH cfg \<and>
    0 \<le> snd (pos p) \<and> snd (pos p) \<le> HEIGHT cfg \<and> \<bar>snd (vel p) * dt'\<bar> \<le> HEIGHT cfg \<longrightarrow>
      0 \<le> fst (pos (fst (update cfg p dt' g))) \<and> fst (pos (fst (update cfg p dt' g))) \<le> WIDTH cfg \<and>
      0 \<le> snd (pos (fst (update cfg p dt' g))) \<and> snd (pos (fst (update cfg p dt' g))) \<le> HEIGHT cfg \<and>
      fst (pos (fst (update cfg p dt' g))) =
        (if fst (pos p) + fst (vel p) * dt' < 0 then fst (pos p) + fst (vel p) * dt' + WIDTH cfg
         else if fst (pos p) + fst (vel p) * dt' > WIDTH cfg then fst (pos p) + fst (vel p) * dt' - WIDTH cfg
         else fst (pos p) + fst (vel p) * dt') \<and>
      snd (pos (fst (update cfg p dt' g))) =
        (if snd (pos p) + snd (vel p) * dt' < 0 then snd (pos p) + snd (vel p) * dt' + HEIGHT cfg
         else if snd (pos p) + snd (vel p) * dt' > HEIGHT cfg then snd (pos p) + snd (vel p) * dt' - HEIGHT cfg
         else snd (pos p) + snd (vel p) * dt') \<and>
      (pos p = (WIDTH cfg - 1 / 10, snd (pos p)) \<and> vel p = (5, 0) \<and> dt' = 1 \<longrightarrow>
         pos (fst (update cfg p dt' g)) = (49 / 10, snd (pos p)))) \<and>
   (init cfg g0 = Inr s0 \<and> run cfg n s0 = Inr ss \<and> unit_samples g0 \<and>
    0 \<le> WIDTH cfg \<and> 0 \<le> HEIGHT cfg \<and> 0 \<le> max_speed cfg \<and> 0 \<le> dt cfg \<and>
    max_speed cfg * dt cfg \<le> WIDTH cfg \<and> max_speed cfg * dt cfg \<le> HEIGHT cfg \<longrightarrow>
      (\<forall>s\<in>set (s0 # ss). \<forall>q\<in>set (population s).
          0 \<le> fst (pos q) \<and> fst (pos q) \<le> WIDTH cfg \<and> 0 \<le> snd (pos q) \<and> snd (pos q) \<le> HEIGHT cfg))"
proof (rule conjI)
  show "0 \<le> fst (pos p) \<and> fst (pos p) \<le> WIDTH cfg \<and> \<bar>fst (vel p) * dt'\<bar> \<le> WIDTH cfg \<and>
    0 \<le> snd (pos p) \<and> snd (pos p) \<le> HEIGHT cfg \<and> \<bar>snd (vel p) * dt'\<bar> \<le> HEIGHT cfg \<longrightarrow>
      0 \<le> fst (pos (fst (update cfg p dt' g))) \<and> fst (pos (fst (update cfg p dt' g))) \<le> WIDTH cfg \<and>
      0 \<le> snd (pos (fst (update cfg p dt' g))) \<and> snd (pos (fst (update cfg p dt' g))) \<le> HEIGHT cfg \<and>
      fst (pos (fst (update cfg p dt' g))) =
        (if fst (pos p) + fst (vel p) * dt' < 0 then fst (pos p) + fst (vel p) * dt' + WIDTH cfg
         else if fst (pos p) + fst (vel p) * dt' > WIDTH cfg then fst (pos p) + fst (vel p) * dt' - WIDTH cfg
         else fst (pos p) + fst (vel p) * dt') \<and>
      snd (pos (fst (update cfg p dt' g))) =
        (if snd (pos p) + snd (vel p) * dt' < 0 then snd (pos p) + snd (vel p) * dt' + HEIGHT cfg
         else if snd (pos p) + snd (vel p) * dt' > HEIGHT cfg then snd (pos p) + snd (vel p) * dt' - HEIGHT cfg
         else snd (pos p) + snd (vel p) * dt') \<and>
      (pos p = (WIDTH cfg - 1 / 10, snd (pos p)) \<and> vel p = (5, 0) \<and> dt' = 1 \<longrightarrow>
         pos (fst (update cfg p dt' g)) = (49 / 10, snd (pos p)))"
  proof (rule impI)
  assume h: "0 \<le> fst (pos p) \<and> fst (pos p) \<le> WIDTH cfg \<and> \<bar>fst (vel p) * dt'\<bar> \<le> WIDTH cfg \<and>
    0 \<le> snd (pos p) \<and> snd (pos p) \<le> HEIGHT cfg \<and> \<bar>snd (vel p) * dt'\<bar> \<le> HEIGHT cfg"
  then have "0 \<le> fst (pos p)" "fst (pos p) \<le> WIDTH cfg" "\<bar>fst (vel p) * dt'\<bar> \<le> WIDTH cfg"
    "0 \<le> snd (pos p)" "snd (pos p) \<le> HEIGHT cfg" "\<bar>snd (vel p) * dt'\<bar> \<le> HEIGHT cfg"
    by simp_all
  from update_in_closed_box[OF this]
  show "0 \<le> fst (pos (fst (update cfg p dt' g))) \<and> fst (pos (fst (update cfg p dt' g))) \<le> WIDTH cfg \<and>
      0 \<le> snd (pos (fst (update cfg p dt' g))) \<and> snd (pos (fst (update cfg p dt' g))) \<le> HEIGHT cfg \<and>
      fst (pos (fst (update cfg p dt' g))) =
        (if fst (pos p) + fst (vel p) * dt' < 0 then fst (pos p) + fst (vel p) * dt' + WIDTH cfg
         else if fst (pos p) + fst (vel p) * dt' > WIDTH cfg then fst (pos p) + fst (vel p) * dt' - WIDTH cfg
         else fst (pos p) + fst (vel p) * dt') \<and>
      snd (pos (fst (update cfg p dt' g))) =
        (if snd (pos p) + snd (vel p) * dt' < 0 then snd (pos p) + snd (vel p) * dt' + HEIGHT cfg
         else if snd (pos p) + snd (vel p) * dt' > HEIGHT cfg then snd (pos p) + snd (vel p) * dt' - HEIGHT cfg
         else snd (pos p) + snd (vel p) * dt') \<and>
      (pos p = (WIDTH cfg - 1 / 10, snd (pos p)) \<and> vel p = (5, 0) \<and> dt' = 1 \<longrightarrow>
         pos (fst (update cfg p dt' g)) = (49 / 10, snd (pos p)))" .
  qed
next
  show "init cfg g0 = Inr s0 \<and> run cfg n s0 = Inr ss \<and> unit_samples g0 \<and>
    0 \<le> WIDTH cfg \<and> 0 \<le> HEIGHT cfg \<and> 0 \<le> max_speed cfg \<and> 0 \<le> dt cfg \<and>
    max_speed cfg * dt cfg \<le> WIDTH cfg \<and> max_speed cfg * dt cfg \<le> HEIGHT cfg \<longrightarrow>
      (\<forall>s\<in>set (s0 # ss). \<forall>q\<in>set (population s).
          0 \<le> fst (pos q) \<and> fst (pos q) \<le> WIDTH cfg \<and> 0 \<le> snd (pos q) \<and> snd (pos q) \<le> HEIGHT cfg)"
  proof (rule impI)
  assume h: "init cfg g0 = Inr s0 \<and> run cfg n s0 = Inr ss \<and> unit_samples g0 \<and>
    0 \<le> WIDTH cfg \<and> 0 \<le> HEIGHT cfg \<and> 0 \<le> max_speed cfg \<and> 0 \<le> dt cfg \<and>
    max_speed cfg * dt cfg \<le> WIDTH cfg \<and> max_speed cfg * dt cfg \<le> HEIGHT cfg"
  then have "init cfg g0 = Inr s0" "run cfg n s0 = Inr ss" "unit_samples g0"
    "0 \<le> WIDTH cfg" "0 \<le> HEIGHT cfg" "0 \<le> max_speed cfg" "0 \<le> dt cfg"
    "max_speed cfg * dt cfg \<le> WIDTH cfg" "max_speed cfg * dt cfg \<le> HEIGHT cfg"
    by simp_all
  from run_in_world[OF this]
  show "\<forall>s\<in>set (s0 # ss). \<forall>q\<in>set (population s).
          0 \<le> fst (pos q) \<and> fst (pos q) \<le> WIDTH cfg \<and> 0 \<le> snd (pos q) \<and> snd (pos q) \<le> HEIGHT cfg"
    by (simp add: in_world_def)
  qed
qed

theorem update_position_closed_box_witness:
  "0 \<le> fst (pos (person_at (7999 / 10, 300) (5, 0) ''S'' 0 False 0)) \<and>
   fst (pos (person_at (7999 / 10, 300) (5, 0) ''S'' 0 False 0)) \<le> WIDTH default_config \<and>
   \<bar>fst (vel (person_at (7999 / 10, 300) (5, 0) ''S'' 0 False 0)) * 1\<bar> \<le> WIDTH default_config \<and>
   0 \<le> snd (pos (person_at (7999 / 10, 300) (5, 0) ''S'' 0 False 0)) \<and>
   snd (pos (person_at (7999 / 10, 300) (5, 0) ''S'' 0 False 0)) \<le> HEIGHT default_config \<and>
   \<bar>snd (vel (person_at (7999 / 10, 300) (5, 0) ''S'' 0 False 0)) * 1\<bar> \<le> HEIGHT default_config \<and>
   pos (fst (update default_config (person_at (7999 / 10, 300) (5, 0) ''S'' 0 False 0) 1
              (rng_const 0 0))) = (49 / 10, 300) \<and>
   init small_config (rng_const 0 (- 10)) = Inr (small_state (''E'', 0) (''S'', 0) (''S'', 0) 0) \<and>
   run small_config 3 (small_state (''E'', 0) (''S'', 0) (''S'', 0) 0) =
     Inr [small_state (''I'', 0) (''E'', 0) (''E'', 0) (1 / 10),
          small_state (''R'', 1 / 10) (''I'', 0) (''I'', 0) (2 / 10),
          small_state (''R'', 1 / 10) (''R'', 1 / 10) (''R'', 1 / 10) (3 / 10)] \<and>
   unit_samples (rng_const 0 (- 10)) \<and>
   0 \<le> WIDTH small_config \<and> 0 \<le> HEIGHT small_config \<and> 0 \<le> max_speed small_config \<and>
   0 \<le> dt small_config \<and> max_speed small_config * dt small_config \<le> WIDTH small_config \<and>
   max_speed small_config * dt small_config \<le> HEIGHT small_config \<and>
   0 \<le> fst (pos (population (small_state (''I'', 0) (''E'', 0) (''E'', 0) (1 / 10)) ! 0)) \<and>
   fst (pos (population (small_state (''I'', 0) (''E'', 0) (''E'', 0) (1 / 10)) ! 0))
     \<le> WIDTH small_config \<and>
   0 \<le> snd (pos (population (small_state (''I'', 0) (''E'', 0) (''E'', 0) (1 / 10)) ! 0)) \<and>
   snd (pos (population (small_state (''I'', 0) (''E'', 0) (''E'', 0) (1 / 10)) ! 0))
     \<le> HEIGHT small_config"
proof -
  let ?p = "person_at (7999 / 10, 300) (5, 0) ''S'' 0 False 0"
  have a: "0 \<le> fst (pos ?p) \<and> fst (pos ?p) \<le> WIDTH default_config \<and>
      \<bar>fst (vel ?p) * 1\<bar> \<le> WIDTH default_config \<and> 0 \<le> snd (pos ?p) \<and>
      snd (pos ?p) \<le> HEIGHT default_config \<and> \<bar>snd (vel ?p) * 1\<bar> \<le> HEIGHT default_config"
    by (simp add: person_at_def default_config_simps)
  have e: "pos ?p = (WIDTH default_config - 1 / 10, snd (pos ?p)) \<and> vel ?p = (5, 0) \<and> (1::real) = 1"
    by (simp add: person_at_def default_config_simps)
  have b: "unit_samples (rng_const 0 (- 10)) \<and>
      0 \<le> WIDTH small_config \<and> 0 \<le> HEIGHT small_config \<and> 0 \<le> max_speed small_config \<and>
      0 \<le> dt small_config \<and> max_speed small_config * dt small_config \<le> WIDTH small_config \<and>
      max_speed small_config * dt small_config \<le> HEIGHT small_config"
    by (simp add: unit_samples_def rng_const_def small_config_simps)
  note t1 = update_position_closed_box[where p = ?p and cfg = default_config and dt' = 1
      and g = "rng_const 0 0"]
  note t2 = update_position_closed_box[where cfg = small_config and ?g0.0 = "rng_const 0 (- 10)"
      and ?s0.0 = "small_state (''E'', 0) (''S'', 0) (''S'', 0) 0" and n = 3
      and ss = "[small_state (''I'', 0) (''E'', 0) (''E'', 0) (1 / 10),
          small_state (''R'', 1 / 10) (''I'', 0) (''I'', 0) (2 / 10),
          small_state (''R'', 1 / 10) (''R'', 1 / 10) (''R'', 1 / 10) (3 / 10)]"]
  from t1 a e have c: "pos (fst (update default_config ?p 1 (rng_const 0 0))) = (49 / 10, snd (pos ?p))"
    by blast
  then have c': "pos (fst (update default_config ?p 1 (rng_const 0 0))) = (49 / 10, 300)"
    by (simp add: person_at_def)
  let ?s1 = "small_state (''I'', 0) (''E'', 0) (''E'', 0) (1 / 10)"
  from t2 init_small run_small b
  have "\<forall>q\<in>set (population ?s1).
       0 \<le> fst (pos q) \<and> fst (pos q) \<le> WIDTH small_config \<and>
       0 \<le> snd (pos q) \<and> snd (pos q) \<le> HEIGHT small_config"
    by simp
  moreover have "population ?s1 ! 0 \<in> set (population ?s1)"
    by (simp add: small_state_def)
  ultimately have d: "0 \<le> fst (pos (population ?s1 ! 0)) \<and>
       fst (pos (population ?s1 ! 0)) \<le> WIDTH small_config \<and>
       0 \<le> snd (pos (population ?s1 ! 0)) \<and>
       snd (pos (population ?s1 ! 0)) \<le> HEIGHT small_config"
    by blast
  from a c' init_small run_small b d show ?thesis by blast
qed

subsection \<open>C4: the pairs the scan tries\<close>

text \<open>
  Counterexample to C4: the claim has the pass try exactly the pairs of an infectious
  \<open>i\<close> and a susceptible \<open>j\<close> of the population after the movement that are closer than
  the radius. With two infectious persons next to one susceptible person, the trial of the
  first infects the target; the pair of the second infectious person and the same target
  meets the claim's condition and is not tried.
\<close>

theorem scan_skips_converted_counterexample:
  "check_transmissions_traced small_config (3 / 10) ((two_infectors, rng_const 0 0), []) =
     Inr (([person_at (0, 0) (0, 0) ''I'' 0 False 0, person_at (0, 0) (0, 0) ''I'' 0 False 0,
            person_at (0, 0) (0, 0) ''E'' 0 False 0], rng_const 0 0),
          [\<lparr>infector = 0, target = 2, subject = person_at (0, 0) (0, 0) ''S'' 0 False 0,
            prob = 3 / 10, sample = 0, infected = True\<rparr>]) \<and>
   state (two_infectors ! 1) = ''I'' \<and> state (two_infectors ! 2) = ''S'' \<and>
   distance (two_infectors ! 1) (two_infectors ! 2) < infection_radius small_config \<and>
   \<not> trialed [\<lparr>infector = 0, target = 2, subject = person_at (0, 0) (0, 0) ''S'' 0 False 0,
               prob = 3 / 10, sample = 0, infected = True\<rparr>] 1 2"
  using pass_two_infectors
  by (simp add: two_infectors_def person_at_def distance_def hypot_0 small_config_simps
      trialed_def)

text \<open>
  C4 (amended): the pass tries exactly the pairs \<open>(i, j)\<close> with \<open>i\<close> infectious and
  \<open>j\<close> susceptible in the population after the movement, at a Euclidean distance
  \<open>hypot(|xi - xj|, |yi - yj|)\<close> of the plain coordinates strictly below the radius, and
  with \<open>j\<close> not infected by a trial of an infector of smaller index in the same pass. A pair
  at a distance equal to the radius is never tried. The recorded pass returns the
  population and the random source the pass returns.
\<close>

theorem scan_trials:
  assumes "check_transmissions_traced cfg p ((pop0, g0), []) = Inr ((pop', g'), tr)"
  shows "check_transmissions cfg p (pop0, g0) = Inr (pop', g') \<and>
         (\<forall>i j. trialed tr i j \<longleftrightarrow>
            (i < nat (N cfg) \<and> j < nat (N cfg) \<and>
             state (pop0 ! i) = ''I'' \<and> state (pop0 ! j) = ''S'' \<and>
             hypot \<bar>fst (pos (pop0 ! i)) - fst (pos (pop0 ! j))\<bar>
                   \<bar>snd (pos (pop0 ! i)) - snd (pos (pop0 ! j))\<bar> < infection_radius cfg) \<and>
            \<not> infected_before tr i j) \<and>
         (\<forall>i j. distance (pop0 ! i) (pop0 ! j) = infection_radius cfg \<longrightarrow> \<not> trialed tr i j)"
proof -
  note f = traced_pass_facts[OF assms]
  have a: "\<forall>i j. trialed tr i j \<longleftrightarrow>
            (i < nat (N cfg) \<and> j < nat (N cfg) \<and>
             state (pop0 ! i) = ''I'' \<and> state (pop0 ! j) = ''S'' \<and>
             hypot \<bar>fst (pos (pop0 ! i)) - fst (pos (pop0 ! j))\<bar>
                   \<bar>snd (pos (pop0 ! i)) - snd (pos (pop0 ! j))\<bar> < infection_radius cfg) \<and>
            \<not> infected_before tr i j"
    using f(1) by (simp add: candidate_def distance_def)
  have b: "\<forall>i j. distance (pop0 ! i) (pop0 ! j) = infection_radius cfg \<longrightarrow> \<not> trialed tr i j"
    using f(1) by (simp add: candidate_def)
  from f(5) a b show ?thesis by blast
qed

theorem scan_trials_witness:
  "check_transmissions_traced small_config (3 / 10) ((edge_population, rng_const 0 0), []) =
     Inr ((edge_population, rng_const 0 0), []) \<and>
   check_transmissions small_config (3 / 10) (edge_population, rng_const 0 0) =
     Inr (edge_population, rng_const 0 0) \<and>
   distance (edge_population ! 0) (edge_population ! 2) = infection_radius small_config \<and>
   \<not> trialed [] 0 2 \<and>
   state (edge_population ! 0) = ''I'' \<and> state (edge_population ! 1) = ''S'' \<and>
   \<not> hypot \<bar>fst (pos (edge_population ! 0)) - fst (pos (edge_population ! 1))\<bar>
           \<bar>snd (pos (edge_population ! 0)) - snd (pos (edge_population ! 1))\<bar>
       < infection_radius small_config \<and>
   \<not> trialed [] 0 1"
proof -
  have d: "distance (edge_population ! 0) (edge_population ! 2) = infection_radius small_config"
    by (simp add: edge_population_def person_at_def distance_def hypot_0 small_config_simps)
  have e: "state (edge_population ! 0) = ''I''" "state (edge_population ! 1) = ''S''"
    "\<not> hypot \<bar>fst (pos (edge_population ! 0)) - fst (pos (edge_population ! 1))\<bar>
           \<bar>snd (pos (edge_population ! 0)) - snd (pos (edge_population ! 1))\<bar>
       < infection_radius small_config"
    by (simp_all add: edge_population_def person_at_def hypot_0 small_config_simps)
  from scan_trials[OF pass_edge_population] d e pass_edge_population
  show ?thesis by blast
qed

subsection \<open>C5: the transmission probability\<close>

text \<open>
  C5: the base probability of an iteration is the uncontrolled one while the time,
  already advanced by \<open>dt\<close>, is below the control time, and the controlled one from then
  on; the iteration computes it once and hands it to the whole transmission pass. The
  effective probability for a target is 0.005 for a vaccinated target with one dose,
  0.002 with two doses and the base probability otherwise, and with the program's
  constants 0.002 < 0.005 < base. For a susceptible target within the radius the trial
  takes exactly one uniform draw and the target becomes exposed, with the timer at 0,
  exactly when the draw is below the effective probability. Over a whole iteration, every
  trial uses the effective probability built on that one base probability, infects
  exactly when its sample is below it, and the \<open>k\<close>-th trial uses the \<open>k\<close>-th uniform
  sample the random source delivers in the iteration.
\<close>

theorem transmission_probability:
  "p_transmission_at cfg t =
     (if t < control_time cfg then p_transmission_uncontrolled cfg
      else p_transmission_controlled cfg) \<and>
   (tick cfg s = Inr (s', c) \<longrightarrow>
      (\<exists>pop1 g1. update_all cfg (dt cfg) (population s) (random_state s) = (pop1, g1) \<and>
         check_transmissions cfg (p_transmission_at cfg (current_time s + dt cfg)) (pop1, g1)
           = Inr (population s', random_state s'))) \<and>
   effective_prob pB pj =
     (if vaccinated pj \<and> dose pj = 1 then 5 / 1000
      else if vaccinated pj \<and> dose pj = 2 then 2 / 1000 else pB) \<and>
   (2 / 1000 < (5 / 1000 :: real) \<and> 5 / 1000 < p_transmission_at default_config t) \<and>
   (i < length pop \<and> j < length pop \<and> state (pop ! j) = ''S'' \<and>
    distance (pop ! i) (pop ! j) < infection_radius cfg \<longrightarrow>
      check_pair cfg pB i j (pop, g) =
        Inr (if uniform_draws g 0 < effective_prob pB (pop ! j)
             then pop[j := (pop ! j)\<lparr>state := ''E'', timer := 0\<rparr>] else pop,
             g\<lparr>uniform_draws := (\<lambda>n. uniform_draws g (Suc n))\<rparr>)) \<and>
   (tick_trials cfg s = Inr tr \<longrightarrow>
      (\<forall>t\<in>set tr.
          prob t = effective_prob (p_transmission_at cfg (current_time s + dt cfg)) (subject t) \<and>
          infected t = (sample t < prob t)) \<and>
      (\<forall>k<length tr. sample (tr ! k) = uniform_draws (random_state s) k))"
proof -
  have a: "tick cfg s = Inr (s', c) \<longrightarrow>
      (\<exists>pop1 g1. update_all cfg (dt cfg) (population s) (random_state s) = (pop1, g1) \<and>
         check_transmissions cfg (p_transmission_at cfg (current_time s + dt cfg)) (pop1, g1)
           = Inr (population s', random_state s'))"
    using tick_unfold by blast
  have b: "effective_prob pB pj =
     (if vaccinated pj \<and> dose pj = 1 then 5 / 1000
      else if vaccinated pj \<and> dose pj = 2 then 2 / 1000 else pB)"
    by (simp add: effective_prob_def)
  have c: "5 / 1000 < p_transmission_at default_config t"
    by (simp add: p_transmission_at_def default_config_simps)
  have d: "i < length pop \<and> j < length pop \<and> state (pop ! j) = ''S'' \<and>
    distance (pop ! i) (pop ! j) < infection_radius cfg \<longrightarrow>
      check_pair cfg pB i j (pop, g) =
        Inr (if uniform_draws g 0 < effective_prob pB (pop ! j)
             then pop[j := (pop ! j)\<lparr>state := ''E'', timer := 0\<rparr>] else pop,
             g\<lparr>uniform_draws := (\<lambda>n. uniform_draws g (Suc n))\<rparr>)"
    using check_pair_trial by blast
  have e: "tick_trials cfg s = Inr tr \<longrightarrow>
      (\<forall>t\<in>set tr.
          prob t = effective_prob (p_transmission_at cfg (current_time s + dt cfg)) (subject t) \<and>
          infected t = (sample t < prob t)) \<and>
      (\<forall>k<length tr. sample (tr ! k) = uniform_draws (random_state s) k)"
    using tick_trials_facts[of cfg s tr] by blast
  from a b c d e show ?thesis by (simp add: p_transmission_at_def)
qed

theorem transmission_probability_witness:
  "tick small_config (small_state (''E'', 0) (''S'', 0) (''S'', 0) 0) =
     Inr (small_state (''I'', 0) (''E'', 0) (''E'', 0) (1 / 10), small_counts 0 2 1 0) \<and>
   (\<exists>pop1 g1.
      update_all small_config (dt small_config)
        (population (small_state (''E'', 0) (''S'', 0) (''S'', 0) 0))
        (random_state (small_state (''E'', 0) (''S'', 0) (''S'', 0) 0)) = (pop1, g1) \<and>
      check_transmissions small_config (3 / 10) (pop1, g1) =
        Inr (population (small_state (''I'', 0) (''E'', 0) (''E'', 0) (1 / 10)),
             random_state (small_state (''I'', 0) (''E'', 0) (''E'', 0) (1 / 10)))) \<and>
   (0::nat) < length (population (small_state (''I'', 0) (''S'', 0) (''S'', 0) 0)) \<and>
   (1::nat) < length (population (small_state (''I'', 0) (''S'', 0) (''S'', 0) 0)) \<and>
   state (population (small_state (''I'', 0) (''S'', 0) (''S'', 0) 0) ! 1) = ''S'' \<and>
   distance (population (small_state (''I'', 0) (''S'', 0) (''S'', 0) 0) ! 0)
            (population (small_state (''I'', 0) (''S'', 0) (''S'', 0) 0) ! 1)
     < infection_radius small_config \<and>
   check_pair small_config (3 / 10) 0 1
     (population (small_state (''I'', 0) (''S'', 0) (''S'', 0) 0), rng_const 0 (- 10)) =
     Inr (population (small_state (''I'', 0) (''E'', 0) (''S'', 0) 0), rng_const 0 (- 10)) \<and>
   tick_trials small_config (small_state (''E'', 0) (''S'', 0) (''S'', 0) 0) =
     Inr [small_trial 0 1, small_trial 0 2] \<and>
   small_trial 0 2 \<in> set [small_trial 0 1, small_trial 0 2] \<and>
   prob (small_trial 0 2) = effective_prob (3 / 10) (subject (small_trial 0 2)) \<and>
   infected (small_trial 0 2) = (sample (small_trial 0 2) < prob (small_trial 0 2)) \<and>
   (1::nat) < length [small_trial 0 1, small_trial 0 2] \<and>
   sample ([small_trial 0 1, small_trial 0 2] ! 1) =
     uniform_draws (random_state (small_state (''E'', 0) (''S'', 0) (''S'', 0) 0)) 1"
proof -
  let ?pop = "population (small_state (''I'', 0) (''S'', 0) (''S'', 0) 0)"
  let ?s = "small_state (''E'', 0) (''S'', 0) (''S'', 0) 0"
  let ?tr = "[small_trial 0 1, small_trial 0 2]"
  have h: "(0::nat) < length ?pop" "(1::nat) < length ?pop" "state (?pop ! 1) = ''S''"
    "distance (?pop ! 0) (?pop ! 1) < infection_radius small_config"
    by (simp_all add: small_state_def person_at_def distance_def hypot_def small_config_simps)
  have m: "small_trial 0 2 \<in> set ?tr" "(1::nat) < length ?tr" by simp_all
  have p: "p_transmission_at small_config (current_time ?s + dt small_config) = 3 / 10"
    by (simp add: p_transmission_at_def small_config_simps small_state_def)
  note t = transmission_probability[where cfg = small_config and s = ?s
      and s' = "small_state (''I'', 0) (''E'', 0) (''E'', 0) (1 / 10)"
      and c = "small_counts 0 2 1 0" and pB = "3 / 10" and i = 0 and pop = ?pop and j = 1
      and g = "rng_const 0 (- 10)" and tr = ?tr]
  from t tick_small_1 have a: "\<exists>pop1 g1.
      update_all small_config (dt small_config) (population ?s) (random_state ?s) = (pop1, g1) \<and>
      check_transmissions small_config (3 / 10) (pop1, g1) =
        Inr (population (small_state (''I'', 0) (''E'', 0) (''E'', 0) (1 / 10)),
             random_state (small_state (''I'', 0) (''E'', 0) (''E'', 0) (1 / 10)))"
    unfolding p by blast
  from t h have "check_pair small_config (3 / 10) 0 1 (?pop, rng_const 0 (- 10)) =
        Inr (if uniform_draws (rng_const 0 (- 10)) 0 < effective_prob (3 / 10) (?pop ! 1)
             then ?pop[1 := (?pop ! 1)\<lparr>state := ''E'', timer := 0\<rparr>] else ?pop,
             (rng_const 0 (- 10))\<lparr>uniform_draws := (\<lambda>n. uniform_draws (rng_const 0 (- 10)) (Suc n))\<rparr>)"
    by blast
  then have b: "check_pair small_config (3 / 10) 0 1 (?pop, rng_const 0 (- 10)) =
     Inr (population (small_state (''I'', 0) (''E'', 0) (''S'', 0) 0), rng_const 0 (- 10))"
    by (simp add: small_state_def person_at_def effective_prob_def rng_const_def)
  from t tick_trials_small have tr:
    "\<forall>t\<in>set ?tr. prob t = effective_prob (3 / 10) (subject t) \<and> infected t = (sample t < prob t)"
    "\<forall>k<length ?tr. sample (?tr ! k) = uniform_draws (random_state ?s) k"
    unfolding p by blast+
  from tr(1) m(1) have c: "prob (small_trial 0 2) = effective_prob (3 / 10) (subject (small_trial 0 2))"
    "infected (small_trial 0 2) = (sample (small_trial 0 2) < prob (small_trial 0 2))" by blast+
  from tr(2) m(2) have d: "sample (?tr ! 1) = uniform_draws (random_state ?s) 1" by blast
  from tick_small_1 a h b tick_trials_small m c d show ?thesis by blast
qed

subsection \<open>C6: the order of the compartments\<close>

text \<open>
  C6: in every run from the initial population, the labels a person passes through,
  from its creation as susceptible on, are a prefix of S, E, I, R once repetitions of the
  same label are merged; and from one state of the run to the next a person keeps its
  label or takes one of the steps S to E, E to I, I to R.
\<close>

theorem compartments_progress:
  assumes "init cfg g = Inr s0" and "run cfg n s0 = Inr ss" and "k < nat (N cfg)"
  shows "prefix (remdups_adj (''S'' # visited k (s0 # ss))) [''S'', ''E'', ''I'', ''R''] \<and>
         (\<forall>m<n. progresses (state (population ((s0 # ss) ! m) ! k))
                            (state (population (ss ! m) ! k)))"
proof -
  have l: "length (population s0) = nat (N cfg)" using init_population(1)[OF assms(1)] .
  with assms(3) have k: "k < length (population s0)" by simp
  then have "population s0 ! k \<in> set (population s0)" by simp
  with init_population(2)[OF assms(1)]
  have s0: "state (population s0 ! k) = ''S'' \<or> state (population s0 ! k) = ''E''" by blast
  have v: "successively progresses (visited k (s0 # ss))"
    using run_visited_progresses[OF assms(2) k] .
  have "successively progresses (''S'' # visited k (s0 # ss))"
    using v s0 by (auto simp: visited_def progresses_def)
  from progresses_prefix[OF this]
  have a: "prefix (remdups_adj (''S'' # visited k (s0 # ss))) [''S'', ''E'', ''I'', ''R'']"
    by (simp add: compartment_def later_stages_def)
  have b: "\<forall>m<n. progresses (state (population ((s0 # ss) ! m) ! k))
                            (state (population (ss ! m) ! k))"
  proof (intro allI impI)
    fix m assume m: "m < n"
    from run_steps[OF assms(2) m] obtain c where
      tk: "tick cfg ((s0 # ss) ! m) = Inr (ss ! m, c)" by blast
    have "length (population ((s0 # ss) ! m)) = length (population s0)"
      using run_population_length[OF assms(2)] run_nth_mem(2)[OF assms(2) m] by auto
    with k have "k < length (population ((s0 # ss) ! m))" by simp
    from tick_progresses[OF tk this]
    show "progresses (state (population ((s0 # ss) ! m) ! k)) (state (population (ss ! m) ! k))" .
  qed
  from a b show ?thesis by simp
qed

theorem compartments_progress_witness:
  "init small_config (rng_const 0 (- 10)) = Inr (small_state (''E'', 0) (''S'', 0) (''S'', 0) 0) \<and>
   run small_config 3 (small_state (''E'', 0) (''S'', 0) (''S'', 0) 0) =
     Inr [small_state (''I'', 0) (''E'', 0) (''E'', 0) (1 / 10),
          small_state (''R'', 1 / 10) (''I'', 0) (''I'', 0) (2 / 10),
          small_state (''R'', 1 / 10) (''R'', 1 / 10) (''R'', 1 / 10) (3 / 10)] \<and>
   1 < nat (N small_config) \<and>
   visited 1 [small_state (''E'', 0) (''S'', 0) (''S'', 0) 0,
              small_state (''I'', 0) (''E'', 0) (''E'', 0) (1 / 10),
              small_state (''R'', 1 / 10) (''I'', 0) (''I'', 0) (2 / 10),
              small_state (''R'', 1 / 10) (''R'', 1 / 10) (''R'', 1 / 10) (3 / 10)] =
     [''S'', ''E'', ''I'', ''R''] \<and>
   prefix (remdups_adj [''S'', ''S'', ''E'', ''I'', ''R'']) [''S'', ''E'', ''I'', ''R'']"
proof -
  have h: "1 < nat (N small_config)" by (simp add: small_config_simps)
  have v: "visited 1 [small_state (''E'', 0) (''S'', 0) (''S'', 0) 0,
              small_state (''I'', 0) (''E'', 0) (''E'', 0) (1 / 10),
              small_state (''R'', 1 / 10) (''I'', 0) (''I'', 0) (2 / 10),
              small_state (''R'', 1 / 10) (''R'', 1 / 10) (''R'', 1 / 10) (3 / 10)] =
     [''S'', ''E'', ''I'', ''R'']"
    by (simp add: visited_def small_state_def person_at_def)
  from compartments_progress[OF init_small run_small h] init_small run_small h v
  show ?thesis by simp
qed

subsection \<open>C7: conservation\<close>

text \<open>
  C7: the initial population has \<open>N\<close> persons, every run from it goes through, and
  after every iteration the population still has \<open>N\<close> persons and the four counts the
  iteration reports add up to \<open>N\<close>.
\<close>

theorem counts_conserved:
  assumes "init cfg g = Inr s0"
  shows "length (population s0) = nat (N cfg) \<and>
         (\<exists>ss. run cfg n s0 = Inr ss \<and>
            (\<forall>m<n. \<exists>c. tick cfg ((s0 # ss) ! m) = Inr (ss ! m, c) \<and>
               length (population (ss ! m)) = nat (N cfg) \<and>
               count_S c + count_E c + count_I c + count_R c = nat (N cfg)))"
proof -
  have l: "length (population s0) = nat (N cfg)" using init_population(1)[OF assms] .
  then have "nat (N cfg) \<le> length (population s0)" by simp
  from run_total[OF this] obtain ss where r: "run cfg n s0 = Inr ss" by blast
  let ?P = "\<lambda>s. length (population s) = nat (N cfg) \<and> (\<forall>p\<in>set (population s). compartment (state p))"
  have p0: "?P s0" using l init_population(2)[OF assms] by (auto simp: compartment_def)
  have step: "\<And>t t' c. ?P t \<Longrightarrow> tick cfg t = Inr (t', c) \<Longrightarrow> ?P t'"
    using tick_length tick_compartment by metis
  have all: "\<forall>s\<in>set ss. ?P s" by (rule run_invariant[where P = ?P, OF r p0 step])
  have "\<forall>m<n. \<exists>c. tick cfg ((s0 # ss) ! m) = Inr (ss ! m, c) \<and>
               length (population (ss ! m)) = nat (N cfg) \<and>
               count_S c + count_E c + count_I c + count_R c = nat (N cfg)"
  proof (intro allI impI)
    fix m assume m: "m < n"
    from run_steps[OF r m] obtain c where tk: "tick cfg ((s0 # ss) ! m) = Inr (ss ! m, c)" by blast
    have pm: "?P (ss ! m)" using all run_nth_mem(1)[OF r m] by blast
    then have "count_state ''S'' (population (ss ! m)) + count_state ''E'' (population (ss ! m))
        + count_state ''I'' (population (ss ! m)) + count_state ''R'' (population (ss ! m)) = nat (N cfg)"
      using count_state_sum[of "population (ss ! m)"] by simp
    then have "count_S c + count_E c + count_I c + count_R c = nat (N cfg)"
      using tick_counts(1)[OF tk] by simp
    with tk pm show "\<exists>c. tick cfg ((s0 # ss) ! m) = Inr (ss ! m, c) \<and>
               length (population (ss ! m)) = nat (N cfg) \<and>
               count_S c + count_E c + count_I c + count_R c = nat (N cfg)" by blast
  qed
  with l r show ?thesis by blast
qed

theorem counts_conserved_witness:
  "init small_config (rng_const 0 (- 10)) = Inr (small_state (''E'', 0) (''S'', 0) (''S'', 0) 0) \<and>
   length (population (small_state (''E'', 0) (''S'', 0) (''S'', 0) 0)) = nat (N small_config) \<and>
   tick small_config (small_state (''E'', 0) (''S'', 0) (''S'', 0) 0) =
     Inr (small_state (''I'', 0) (''E'', 0) (''E'', 0) (1 / 10), small_counts 0 2 1 0) \<and>
   count_S (small_counts 0 2 1 0) + count_E (small_counts 0 2 1 0) + count_I (small_counts 0 2 1 0)
     + count_R (small_counts 0 2 1 0) = nat (N small_config)"
proof -
  from counts_conserved[OF init_small, of 3]
  have "length (population (small_state (''E'', 0) (''S'', 0) (''S'', 0) 0)) = nat (N small_config)"
    by blast
  with init_small tick_small_1 show ?thesis
    by (simp add: small_counts_def small_config_simps)
qed

subsection \<open>C8: configuration errors\<close>

text \<open>
  Counterexample to C8: the claim rejects a configuration with a radius, a time step or
  a probability out of range before any iteration runs. With radius 0, time step 0 and
  probability 2 the initialisation succeeds and the first iteration runs.
\<close>

theorem invalid_config_accepted_counterexample:
  "infection_radius invalid_config \<le> 0 \<and> dt invalid_config \<le> 0 \<and>
   1 < p_transmission_uncontrolled invalid_config \<and>
   init invalid_config (rng_const 0 (- 10)) =
     Inr (small_state (''E'', 0) (''S'', 0) (''S'', 0) 0) \<and>
   tick invalid_config (small_state (''E'', 0) (''S'', 0) (''S'', 0) 0) =
     Inr (small_state (''I'', 0) (''S'', 0) (''S'', 0) 0, small_counts 2 0 1 0)"
  by (simp add: init_def tick_def invalid_config_simps draw_const range_3 person_at_def
      Person_init_def vaccinate_def update_def move_def wrap_def
      check_transmissions_def infect_from_def check_pair_def getitem_def distance_def hypot_def
      effective_prob_def p_transmission_at_def count_state_def
      numeral_3_eq_3 small_state_def small_counts_def)

text \<open>
  C8 (amended): the program checks no parameter. The initialisation succeeds exactly
  when \<open>N\<close> is at least 1, whatever the radius, the time step and the probabilities; with
  \<open>N \<le> 0\<close> it stops with the IndexError of choosing the first patient from an empty
  population, before any iteration. The constants of the program are in range.
\<close>

theorem init_checks_nothing:
  "((\<exists>s. init cfg g = Inr s) \<longleftrightarrow> 1 \<le> N cfg) \<and>
   (N cfg \<le> 0 \<longrightarrow> init cfg g = Inl IndexError) \<and>
   0 < N default_config \<and> 0 < infection_radius default_config \<and> 0 < dt default_config \<and>
   0 \<le> p_transmission_uncontrolled default_config \<and> p_transmission_uncontrolled default_config \<le> 1 \<and>
   0 \<le> p_transmission_controlled default_config \<and> p_transmission_controlled default_config \<le> 1"
  using init_succeeds_iff[of cfg g] init_fails[of cfg g] by (simp add: default_config_simps)

theorem init_checks_nothing_witness:
  "N (small_config\<lparr>N := 0\<rparr>) \<le> 0 \<and>
   init (small_config\<lparr>N := 0\<rparr>) (rng_const 0 0) = Inl IndexError \<and>
   1 \<le> N small_config \<and>
   init small_config (rng_const 0 (- 10)) = Inr (small_state (''E'', 0) (''S'', 0) (''S'', 0) 0)"
  using init_checks_nothing[of "small_config\<lparr>N := 0\<rparr>" "rng_const 0 0"]
    init_checks_nothing[of small_config "rng_const 0 (- 10)"] init_small
  by (simp add: small_config_simps)

subsection \<open>C9: no second trial after an infection\<close>

text \<open>
  C9: in one pass, every trial finds its target susceptible; a target that a trial has
  infected is the target of no later trial of the pass, and it is exposed when the pass
  ends.
\<close>

theorem no_trial_after_infection:
  assumes "check_transmissions_traced cfg p ((pop0, g0), []) = Inr ((pop', g'), tr)"
  shows "(\<forall>a b. a < b \<and> b < length tr \<and> infected (tr ! a) \<longrightarrow> target (tr ! b) \<noteq> target (tr ! a)) \<and>
         (\<forall>t\<in>set tr. state (subject t) = ''S'' \<and>
                     (infected t \<longrightarrow> state (pop' ! target t) = ''E''))"
proof -
  note f = traced_pass_facts[OF assms]
  have a: "\<forall>a b. a < b \<and> b < length tr \<and> infected (tr ! a) \<longrightarrow> target (tr ! b) \<noteq> target (tr ! a)"
    using f(2) by (simp add: no_retrial_def)
  have ex: "list_all2 exposes pop0 pop'" using check_transmissions_exposes[OF f(5)] .
  have b: "\<forall>t\<in>set tr. state (subject t) = ''S'' \<and>
                     (infected t \<longrightarrow> state (pop' ! target t) = ''E'')"
  proof
    fix t assume t: "t \<in> set tr"
    with f(3) have l: "target t < length pop0" and s: "subject t = pop0 ! target t" by simp_all
    from t have "trialed tr (infector t) (target t)" by (auto simp: trialed_def)
    with f(1) have "candidate cfg pop0 (infector t) (target t)" by blast
    then have s0: "state (pop0 ! target t) = ''S''" by (simp add: candidate_def)
    have "infected t \<longrightarrow> state (pop' ! target t) = ''E''"
    proof
      assume "infected t"
      with t f(4) l have "state (pop' ! target t) \<noteq> state (pop0 ! target t)" by blast
      moreover from ex l have "exposes (pop0 ! target t) (pop' ! target t)"
        by (simp add: list_all2_conv_all_nth)
      ultimately show "state (pop' ! target t) = ''E''" by (auto simp: exposes_def)
    qed
    with s s0 show "state (subject t) = ''S'' \<and> (infected t \<longrightarrow> state (pop' ! target t) = ''E'')"
      by simp
  qed
  from a b show ?thesis by blast
qed

theorem no_trial_after_infection_witness:
  "check_transmissions_traced small_config (3 / 10)
     ((population (small_state (''I'', 0) (''S'', 0) (''S'', 0) 0), rng_const 0 (- 10)), []) =
     Inr ((population (small_state (''I'', 0) (''E'', 0) (''E'', 0) 0), rng_const 0 (- 10)),
          [small_trial 0 1, small_trial 0 2]) \<and>
   (0::nat) < 1 \<and> (1::nat) < length [small_trial 0 1, small_trial 0 2] \<and>
   infected ([small_trial 0 1, small_trial 0 2] ! 0) \<and>
   target ([small_trial 0 1, small_trial 0 2] ! 1) \<noteq> target ([small_trial 0 1, small_trial 0 2] ! 0) \<and>
   small_trial 0 1 \<in> set [small_trial 0 1, small_trial 0 2] \<and>
   state (subject (small_trial 0 1)) = ''S'' \<and>
   state (population (small_state (''I'', 0) (''E'', 0) (''E'', 0) 0) ! target (small_trial 0 1)) = ''E''"
proof -
  have h: "(0::nat) < 1" "(1::nat) < length [small_trial 0 1, small_trial 0 2]"
    "infected ([small_trial 0 1, small_trial 0 2] ! 0)"
    "small_trial 0 1 \<in> set [small_trial 0 1, small_trial 0 2]" "infected (small_trial 0 1)"
    by (simp_all add: small_trial_def)
  from no_trial_after_infection[OF pass_small] h pass_small
  show ?thesis by blast
qed

subsection \<open>C10: the vaccination fields and the fallback branch\<close>

text \<open>
  C10: in every state of every run from the initial population, a vaccinated person has
  dose 1 or 2 and an unvaccinated one has dose 0, with both fields as the initialisation
  left them; every iteration of the run goes through its transmission pass, and no trial
  of it finds a target for which the fallback branch would be taken.
\<close>

theorem fallback_unreachable:
  assumes "init cfg g = Inr s0" and "run cfg n s0 = Inr ss" and "m < n" and "k < nat (N cfg)"
  shows "dose_ok (population s0 ! k) \<and> dose_ok (population (ss ! m) ! k) \<and>
         vaccinated (population (ss ! m) ! k) = vaccinated (population s0 ! k) \<and>
         dose (population (ss ! m) ! k) = dose (population s0 ! k) \<and>
         (\<exists>tr. tick_trials cfg ((s0 # ss) ! m) = Inr tr \<and>
               (\<forall>t\<in>set tr. \<not> fallback_branch (subject t)))"
proof -
  let ?P = "\<lambda>s. length (population s) = nat (N cfg) \<and>
      (\<forall>j<nat (N cfg). vaccinated (population s ! j) = vaccinated (population s0 ! j) \<and>
                       dose (population s ! j) = dose (population s0 ! j))"
  have l0: "length (population s0) = nat (N cfg)" using init_population(1)[OF assms(1)] .
  have ok0: "\<forall>j<nat (N cfg). dose_ok (population s0 ! j)"
    using init_population(2)[OF assms(1)] l0 by simp
  have p0: "?P s0" using l0 by simp
  have step: "\<And>t t' c. ?P t \<Longrightarrow> tick cfg t = Inr (t', c) \<Longrightarrow> ?P t'"
  proof -
    fix t t' c assume pt: "?P t" and tk: "tick cfg t = Inr (t', c)"
    show "?P t'"
    proof (intro conjI allI impI)
      show "length (population t') = nat (N cfg)" using tick_length[OF tk] pt by simp
    next
      fix j assume j: "j < nat (N cfg)"
      then have jl: "j < length (population t)" using pt by simp
      from tick_fields[OF tk jl] pt j
      show "vaccinated (population t' ! j) = vaccinated (population s0 ! j)" by simp
      from tick_fields[OF tk jl] pt j
      show "dose (population t' ! j) = dose (population s0 ! j)" by simp
    qed
  qed
  have all: "\<forall>s\<in>set ss. ?P s" by (rule run_invariant[where P = ?P, OF assms(2) p0 step])
  have ok: "\<forall>j<nat (N cfg). dose_ok (population s ! j)" if "?P s" for s
    using that ok0 by (simp add: dose_ok_def)
  have pb: "?P (ss ! m)" using all run_nth_mem(1)[OF assms(2,3)] by blast
  have pa: "?P ((s0 # ss) ! m)" using all p0 run_nth_mem(2)[OF assms(2,3)] by auto
  from run_steps[OF assms(2,3)] obtain c where
    tk: "tick cfg ((s0 # ss) ! m) = Inr (ss ! m, c)" by blast
  with tick_trials_total[of cfg "(s0 # ss) ! m"] obtain tr where
    tr: "tick_trials cfg ((s0 # ss) ! m) = Inr tr" by blast
  have nf: "\<forall>t\<in>set tr. \<not> fallback_branch (subject t)"
  proof
    fix t assume "t \<in> set tr"
    from tick_trials_subject[OF tr this] obtain j where
      j: "j < length (population ((s0 # ss) ! m))"
      "vaccinated (subject t) = vaccinated (population ((s0 # ss) ! m) ! j)"
      "dose (subject t) = dose (population ((s0 # ss) ! m) ! j)" by blast
    with pa have "j < nat (N cfg)" by simp
    with ok[OF pa] have "dose_ok (population ((s0 # ss) ! m) ! j)" by simp
    with j(2,3) have "dose_ok (subject t)" by (simp add: dose_ok_def)
    then show "\<not> fallback_branch (subject t)" by (rule dose_ok_no_fallback)
  qed
  from ok0 ok[OF pb] pb assms(4) tr nf show ?thesis by blast
qed

theorem fallback_unreachable_witness:
  "init small_config (rng_const 0 (- 10)) = Inr (small_state (''E'', 0) (''S'', 0) (''S'', 0) 0) \<and>
   run small_config 3 (small_state (''E'', 0) (''S'', 0) (''S'', 0) 0) =
     Inr [small_state (''I'', 0) (''E'', 0) (''E'', 0) (1 / 10),
          small_state (''R'', 1 / 10) (''I'', 0) (''I'', 0) (2 / 10),
          small_state (''R'', 1 / 10) (''R'', 1 / 10) (''R'', 1 / 10) (3 / 10)] \<and>
   (0::nat) < 3 \<and> 1 < nat (N small_config) \<and>
   tick_trials small_config (small_state (''E'', 0) (''S'', 0) (''S'', 0) 0) =
     Inr [small_trial 0 1, small_trial 0 2] \<and>
   \<not> fallback_branch (subject (small_trial 0 1)) \<and>
   \<not> fallback_branch (subject (small_trial 0 2)) \<and>
   dose_ok (population (small_state (''I'', 0) (''E'', 0) (''E'', 0) (1 / 10)) ! 1)"
proof -
  have h: "(0::nat) < 3" "1 < nat (N small_config)" by (simp_all add: small_config_simps)
  from fallback_unreachable[OF init_small run_small h]
  have "dose_ok (population (small_state (''I'', 0) (''E'', 0) (''E'', 0) (1 / 10)) ! 1)"
    and "\<exists>tr. tick_trials small_config (small_state (''E'', 0) (''S'', 0) (''S'', 0) 0) = Inr tr \<and>
               (\<forall>t\<in>set tr. \<not> fallback_branch (subject t))"
    by simp_all
  with tick_trials_small init_small run_small h show ?thesis by auto
qed

end
